theory Spec2Isabelle
  imports Complex_Main
begin

section \<open>The operator classes of \<^verbatim>\<open>pycsou/abc/operator.py\<close>\<close>

text \<open>
  The capability vocabulary is the frozenset returned by \<^verbatim>\<open>Property._property_list\<close>:
  "apply", "_lipschitz", "jacobian", "_diff_lipschitz", "single_valued", "gradient", "prox",
  "adjoint".
\<close>

datatype capability =
  PApply | PLipschitz | PJacobian | PDiffLipschitz | PSingleValued | PGradient | PProx | PAdjoint

text \<open>
  The classes of the module that derive from \<^verbatim>\<open>Map\<close>; \<open>Func_kind\<close> is the class
  \<^verbatim>\<open>Func\<close>.
\<close>

datatype kind =
  Map | DiffMap | Func_kind | DiffFunc | ProxFunc | LinOp | LinFunc
  | SquareOp | NormalOp | SelfAdjointOp | UnitOp | ProjOp | OrthProjOp | PosDefOp

datatype error =
  NotImplementedError | ValueError | TypeError | NameError | AttributeError | ZeroDivisionError
  | IndexError

text \<open>
  A Lipschitz estimate or a scaling factor is a real number or \<^verbatim>\<open>np.infty\<close> (negative
  zero, minus infinity and not-a-number are not represented).
\<close>

datatype number = Fin real | Infty

text \<open>
  The divisor of \<^verbatim>\<open>__truediv__\<close> is a finite number held either by a Python \<^verbatim>\<open>int\<close> or
  \<^verbatim>\<open>float\<close> or by a numpy scalar; both are instances of \<^verbatim>\<open>numbers.Real\<close>. They differ in
  \<^verbatim>\<open>1 / scalar\<close> at zero: Python raises \<^verbatim>\<open>ZeroDivisionError\<close>, numpy warns and gives
  \<^verbatim>\<open>inf\<close>.
\<close>

datatype scalar = PyNum real | NpNum real

fun reciprocal :: "scalar \<Rightarrow> error + number" where
  "reciprocal (PyNum c) = (if c = 0 then Inl ZeroDivisionError else Inr (Fin (1 / c)))"
| "reciprocal (NpNum c) = (if c = 0 then Inr Infty else Inr (Fin (1 / c)))"

fun num_add :: "number \<Rightarrow> number \<Rightarrow> number" where
  "num_add (Fin a) (Fin b) = Fin (a + b)"
| "num_add _ _ = Infty"

fun num_mul :: "number \<Rightarrow> number \<Rightarrow> number" where
  "num_mul (Fin a) (Fin b) = Fin (a * b)"
| "num_mul _ _ = Infty"

text \<open>
  \<^verbatim>\<open>properties(cls)\<close> is \<^verbatim>\<open>set(dir(cls))\<close> intersected with the vocabulary. The names
  "_lipschitz" and "_diff_lipschitz" are instance attributes set by \<^verbatim>\<open>__init__\<close> (the
  classes declare the methods \<^verbatim>\<open>lipschitz\<close> and \<^verbatim>\<open>diff_lipschitz\<close>, without underscore), so
  they are in no class's \<^verbatim>\<open>dir\<close>. What remains are the methods each class inherits:
  \<^verbatim>\<open>apply\<close> from Apply, \<^verbatim>\<open>jacobian\<close> from Differential, \<^verbatim>\<open>gradient\<close> from Gradient,
  \<^verbatim>\<open>adjoint\<close> from Adjoint, \<^verbatim>\<open>prox\<close> from Proximal, \<^verbatim>\<open>single_valued\<close> from SingledValued.
\<close>

fun properties :: "kind \<Rightarrow> capability set" where
  "properties Map = {PApply}"
| "properties DiffMap = {PApply, PJacobian}"
| "properties Func_kind = {PApply, PSingleValued}"
| "properties DiffFunc = {PApply, PSingleValued, PJacobian, PGradient}"
| "properties ProxFunc = {PApply, PSingleValued, PProx}"
| "properties LinOp = {PApply, PJacobian, PAdjoint}"
| "properties LinFunc = {PApply, PSingleValued, PJacobian, PGradient, PAdjoint}"
| "properties SquareOp = {PApply, PJacobian, PAdjoint}"
| "properties NormalOp = {PApply, PJacobian, PAdjoint}"
| "properties SelfAdjointOp = {PApply, PJacobian, PAdjoint}"
| "properties UnitOp = {PApply, PJacobian, PAdjoint}"
| "properties ProjOp = {PApply, PJacobian, PAdjoint}"
| "properties OrthProjOp = {PApply, PJacobian, PAdjoint}"
| "properties PosDefOp = {PApply, PJacobian, PAdjoint}"

text \<open>\<^verbatim>\<open>has(cls, prop)\<close> for a tuple of names: \<^verbatim>\<open>set(prop) <= cls.properties()\<close>.\<close>

definition has :: "kind \<Rightarrow> capability set \<Rightarrow> bool" where
  "has k ps = (ps \<subseteq> properties k)"

text \<open>
  \<^verbatim>\<open>has\<close> called with the bare string "single_valued", as \<^verbatim>\<open>specialize\<close> does:
  \<^verbatim>\<open>set("single_valued")\<close> is the set of the string's characters, none of which is a
  capability name, so the test is false for every class.
\<close>

definition has_single_valued_str :: "kind \<Rightarrow> bool" where
  "has_single_valued_str k = False"

text \<open>\<^verbatim>\<open>isinstance\<close> tests used by the module, read off the class statements.\<close>

definition is_LinOp :: "kind \<Rightarrow> bool" where
  "is_LinOp k = (k \<in> {LinOp, LinFunc, SquareOp, NormalOp, SelfAdjointOp, UnitOp, ProjOp,
                       OrthProjOp, PosDefOp})"

definition is_LinFunc :: "kind \<Rightarrow> bool" where
  "is_LinFunc k = (k = LinFunc)"

definition is_UnitOp :: "kind \<Rightarrow> bool" where
  "is_UnitOp k = (k = UnitOp)"

definition is_SelfAdjointOp :: "kind \<Rightarrow> bool" where
  "is_SelfAdjointOp k = (k \<in> {SelfAdjointOp, OrthProjOp, PosDefOp})"

definition is_SquareOp :: "kind \<Rightarrow> bool" where
  "is_SquareOp k = (k \<in> {SquareOp, NormalOp, SelfAdjointOp, UnitOp, ProjOp, OrthProjOp, PosDefOp})"

definition is_Func :: "kind \<Rightarrow> bool" where
  "is_Func k = (k \<in> {Func_kind, DiffFunc, ProxFunc, LinFunc})"

subsection \<open>Shapes\<close>

text \<open>
  A shape is the pair (codomain size, domain size), the domain size \<^verbatim>\<open>None\<close> for a
  domain-agnostic operator.
\<close>

type_synonym shape = "nat \<times> nat option"

text \<open>
  Modelled from the spec: \<^verbatim>\<open>pycsou.util.infer_sum_shape\<close> is not part of the sources at hand.
  The docstring of \<^verbatim>\<open>__add__\<close> and the spec give its contract: the codomain sizes are
  range-broadcastable (\<^verbatim>\<open>N=M or 1 in (N,M)\<close>), the domain sizes are equal or one is
  agnostic; the result has the broadcast codomain size and the concrete domain size if any.
  It raises \<^verbatim>\<open>ValueError\<close> otherwise.
\<close>

definition infer_sum_shape :: "shape \<Rightarrow> shape \<Rightarrow> error + shape" where
  "infer_sum_shape s1 s2 =
     (if (fst s1 = fst s2 \<or> fst s1 = 1 \<or> fst s2 = 1)
         \<and> (snd s1 = snd s2 \<or> snd s1 = None \<or> snd s2 = None)
      then Inr (max (fst s1) (fst s2), (case snd s1 of None \<Rightarrow> snd s2 | Some k \<Rightarrow> Some k))
      else Inl ValueError)"

text \<open>
  Modelled from the spec: \<^verbatim>\<open>pycsou.util.infer_composition_shape\<close> is not part of the sources
  at hand. By the docstring of \<^verbatim>\<open>__mul__\<close> and the spec, the domain size of the left factor
  equals the codomain size of the right factor unless the left factor is domain-agnostic; the
  result is (codomain of the left, domain of the right).
\<close>

definition infer_composition_shape :: "shape \<Rightarrow> shape \<Rightarrow> error + shape" where
  "infer_composition_shape s1 s2 =
     (if snd s1 = None \<or> snd s1 = Some (fst s2)
      then Inr (fst s1, snd s2)
      else Inl ValueError)"

text \<open>
  The checks of the constructors, for a shape given as a pair whose codomain size is a number:
  \<^verbatim>\<open>Func.__init__\<close> (inherited by DiffFunc, ProxFunc, LinFunc) raises \<^verbatim>\<open>ValueError\<close> when
  \<^verbatim>\<open>shape[0] > 1\<close>; \<^verbatim>\<open>SquareOp.__init__\<close> (inherited by its subclasses) raises
  \<^verbatim>\<open>ValueError\<close> when \<^verbatim>\<open>shape[0] != shape[1]\<close> and stores \<^verbatim>\<open>(shape[0], shape[0])\<close>. The
  checks of \<^verbatim>\<open>Map.__init__\<close> (more than two entries, codomain \<^verbatim>\<open>None\<close>) cannot fail on such
  a shape.
\<close>

definition init_shape :: "kind \<Rightarrow> shape \<Rightarrow> error + shape" where
  "init_shape k s =
     (if is_Func k then (if fst s > 1 then Inl ValueError else Inr s)
      else if is_SquareOp k then
        (if Some (fst s) \<noteq> snd s then Inl ValueError else Inr (fst s, Some (fst s)))
      else Inr s)"

text \<open>
  The instance attributes set by the constructors: \<^verbatim>\<open>_lipschitz\<close> is \<^verbatim>\<open>np.infty\<close>
  (\<^verbatim>\<open>Map.__init__\<close>), 1 for UnitOp and OrthProjOp; \<^verbatim>\<open>_diff_lipschitz\<close> is \<^verbatim>\<open>np.infty\<close> for
  DiffMap, 0 for LinOp and its subclasses, and is not set by Map, Func, ProxFunc and DiffFunc
  (whose constructor chain never reaches \<^verbatim>\<open>DiffMap.__init__\<close>).
\<close>

definition init_lipschitz :: "kind \<Rightarrow> number" where
  "init_lipschitz k = (if k = UnitOp \<or> k = OrthProjOp then Fin 1 else Infty)"

definition init_diff_lipschitz :: "kind \<Rightarrow> number option" where
  "init_diff_lipschitz k =
     (if is_LinOp k then Some (Fin 0) else if k = DiffMap then Some Infty else None)"

subsection \<open>Operator instances\<close>

text \<open>
  An instance is its class, its shape, the two scalar attributes and the instance dictionary
  of the methods bound by \<^verbatim>\<open>setattr\<close>. A bound method is a closure: its code together with
  the variables it captured. Each \<^verbatim>\<open>lambda\<close> and nested \<^verbatim>\<open>def\<close> of the module is one
  constructor of \<open>impl\<close>, holding the captured \<^verbatim>\<open>self\<close>, \<^verbatim>\<open>other\<close>, \<^verbatim>\<open>arr\<close> and, for
  the two closures that read the loop variable \<^verbatim>\<open>prop\<close> when they are called
  (\<^verbatim>\<open>composite_method\<close> in \<^verbatim>\<open>__add__\<close>, \<^verbatim>\<open>argshifted_method\<close> in \<^verbatim>\<open>argshift\<close>), the value
  that variable holds once the loop has ended. \<open>Prim1\<close> and \<open>Prim2\<close> are implementations
  supplied from outside the module, of one array argument and of an array and a step size.
  \<open>ClassMethod self p\<close> is the method \<^verbatim>\<open>p\<close> of the class of \<^verbatim>\<open>self\<close>, bound to \<^verbatim>\<open>self\<close>.
  The module defines abstract classes only; a method that a user's subclass overrides is
  modelled as an entry of the instance dictionary of an instance of the library class, which
  is where attribute lookup finds it first in either case.
\<close>

datatype 'a val = VArr 'a | VNum real | VBool bool | VOp "'a operator"
and 'a impl =
    Prim1 "'a \<Rightarrow> error + 'a val"
  | Prim2 "'a \<Rightarrow> real \<Rightarrow> error + 'a val"
  | ClassMethod "'a operator" capability
  | Composite "'a operator" "'a operator" capability
  | MulApply "'a operator" "'a operator"
  | MulGradient "'a operator" "'a operator"
  | MulJacobian "'a operator" "'a operator"
  | MulAdjoint "'a operator" "'a operator"
  | SpecGradient "'a operator"
  | ProxAddLin "'a operator" "'a operator"
  | ProxMulUnit "'a operator" "'a operator"
  | Shifted "'a operator" 'a capability
  | ShiftedProx "'a operator" 'a
and 'a operator =
    Operator (cls: kind) (shape: shape) (attr_lipschitz: number)
             (attr_diff_lipschitz: "number option") (attrs: "(capability \<times> 'a impl) list")

text \<open>
  What the sources leave to the interpreter or to absent modules: the iteration order of the
  frozenset \<^verbatim>\<open>_base_operators\<close> and of a set of capability names (hash order), the identity
  matrix \<^verbatim>\<open>xp.eye(n)\<close>, \<^verbatim>\<open>reshape(-1)\<close>, the last axis \<^verbatim>\<open>arr.shape[-1]\<close> of a squeezed
  array (\<open>None\<close> for an array of one element, which \<^verbatim>\<open>squeeze()\<close> leaves without axes), and
  the constructors \<^verbatim>\<open>ExplicitLinFunc\<close>, \<^verbatim>\<open>HomothetyOp(cst, dim)\<close> and
  \<^verbatim>\<open>IdentityOperator(shape)\<close> of \<^verbatim>\<open>pycsou.linop.base\<close>.
\<close>

record 'a env =
  base_operators :: "kind list"
  iter :: "capability set \<Rightarrow> capability list"
  eye :: "nat \<Rightarrow> 'a"
  flatten :: "'a \<Rightarrow> 'a"
  dim_of :: "'a \<Rightarrow> nat option"
  ExplicitLinFunc :: "'a \<Rightarrow> 'a operator"
  HomothetyOp :: "number \<Rightarrow> nat option \<Rightarrow> 'a operator"
  IdentityOperator :: "shape \<Rightarrow> 'a operator"

definition wf_env :: "'a env \<Rightarrow> bool" where
  "wf_env e = (distinct (base_operators e)
     \<and> set (base_operators e) = {Map, DiffMap, Func_kind, DiffFunc, ProxFunc, LinOp, LinFunc}
     \<and> (\<forall>S. distinct (iter e S) \<and> set (iter e S) = S))"

text \<open>\<^verbatim>\<open>Op(shape)\<close>: the constructor of class \<open>k\<close>.\<close>

definition new_operator :: "kind \<Rightarrow> shape \<Rightarrow> error + 'a operator" where
  "new_operator k s =
     (case init_shape k s of
        Inl e \<Rightarrow> Inl e
      | Inr s' \<Rightarrow> Inr (Operator k s' (init_lipschitz k) (init_diff_lipschitz k) []))"

text \<open>\<^verbatim>\<open>setattr(obj, p, m)\<close> for a method: the newest binding of a name is the one found.\<close>

fun setattr :: "'a operator \<Rightarrow> capability \<Rightarrow> 'a impl \<Rightarrow> 'a operator" where
  "setattr (Operator k s l d as) p m = Operator k s l d ((p, m) # as)"

fun set_diff_lipschitz :: "'a operator \<Rightarrow> number \<Rightarrow> 'a operator" where
  "set_diff_lipschitz (Operator k s l d as) v = Operator k s l (Some v) as"

text \<open>
  \<^verbatim>\<open>getattr(self, p)\<close> for a method name: the instance dictionary first, then the class
  (a class has the method exactly when the name is among its \<^verbatim>\<open>properties\<close>), else
  \<^verbatim>\<open>AttributeError\<close>.
\<close>

definition getattr :: "'a operator \<Rightarrow> capability \<Rightarrow> error + 'a impl" where
  "getattr self p =
     (case map_of (attrs self) p of
        Some m \<Rightarrow> Inr m
      | None \<Rightarrow> if p \<in> properties (cls self) then Inr (ClassMethod self p)
                else Inl AttributeError)"

text \<open>A \<^verbatim>\<open>for\<close> loop that updates the new instance and stops at the first exception.\<close>

fun for_each :: "(capability \<Rightarrow> 'a operator \<Rightarrow> error + 'a operator) \<Rightarrow> capability list
                 \<Rightarrow> 'a operator \<Rightarrow> error + 'a operator" where
  "for_each body [] obj = Inr obj"
| "for_each body (p # ps) obj =
     (case body p obj of Inl e \<Rightarrow> Inl e | Inr obj' \<Rightarrow> for_each body ps obj')"

text \<open>
  The scan \<^verbatim>\<open>for Op in _base_operators: if Op.properties() == shared_props: break\<close>. When
  no class matches, \<^verbatim>\<open>Op\<close> is left at the last class visited.
\<close>

definition resolve_kind :: "'a env \<Rightarrow> capability set \<Rightarrow> kind" where
  "resolve_kind e S =
     (case find (\<lambda>Op. properties Op = S) (base_operators e) of
        Some Op \<Rightarrow> Op
      | None \<Rightarrow> last (base_operators e))"

subsection \<open>specialize and squeeze\<close>

definition specialize_body ::
  "'a operator \<Rightarrow> kind \<Rightarrow> capability \<Rightarrow> 'a operator \<Rightarrow> error + 'a operator" where
  "specialize_body self cast_to p obj =
     (if p = PJacobian \<and> has_single_valued_str cast_to
      then Inr (setattr obj PGradient (SpecGradient self))
      else (case getattr self p of Inl e \<Rightarrow> Inl e | Inr m \<Rightarrow> Inr (setattr obj p m)))"

definition specialize :: "'a env \<Rightarrow> 'a operator \<Rightarrow> kind \<Rightarrow> error + 'a operator" where
  "specialize e self cast_to =
     (if cast_to = cls self then Inr self
      else if properties cast_to \<subset> properties (cls self) then Inl ValueError
      else (case new_operator cast_to (shape self) of
              Inl err \<Rightarrow> Inl err
            | Inr obj \<Rightarrow>
                for_each (specialize_body self cast_to) (iter e (properties (cls self))) obj))"

text \<open>
  \<^verbatim>\<open>squeeze\<close> is defined by Map (\<^verbatim>\<open>out=Func\<close>), DiffMap (\<^verbatim>\<open>out=DiffFunc\<close>) and LinOp
  (\<^verbatim>\<open>out=LinFunc\<close>). Func, ProxFunc and DiffFunc inherit Map's; LinFunc, whose method
  resolution order is LinFunc, DiffFunc, Func, LinOp, DiffMap, Map, finds LinOp's first, as
  do the subclasses of LinOp.
\<close>

definition squeeze_out :: "kind \<Rightarrow> kind" where
  "squeeze_out k = (if is_LinOp k then LinFunc else if k = DiffMap then DiffFunc else Func_kind)"

definition squeeze :: "'a env \<Rightarrow> 'a operator \<Rightarrow> error + 'a operator" where
  "squeeze e self =
     (if fst (shape self) = 1 then specialize e self (squeeze_out (cls self)) else Inr self)"

subsection \<open>Addition\<close>

text \<open>
  The body of the loop of \<^verbatim>\<open>Property.__add__\<close>. The list it tests the name against is
  \<^verbatim>\<open>["_lispchitz", "_diff_lipschitz"]\<close>: the first entry is no capability name, so only
  "_diff_lipschitz" takes the first branch. Every other name is bound to
  \<^verbatim>\<open>composite_method\<close>, which reads \<^verbatim>\<open>prop\<close> when it is called: \<open>plast\<close> is the value
  of \<^verbatim>\<open>prop\<close> after the loop.
\<close>

definition add_body ::
  "'a operator \<Rightarrow> 'a operator \<Rightarrow> capability \<Rightarrow> capability \<Rightarrow> 'a operator
   \<Rightarrow> error + 'a operator" where
  "add_body self other plast p out_op =
     (if p = PDiffLipschitz then
        (case (attr_diff_lipschitz self, attr_diff_lipschitz other) of
           (Some a, Some b) \<Rightarrow> Inr (set_diff_lipschitz out_op (num_add a b))
         | _ \<Rightarrow> Inl AttributeError)
      else Inr (setattr out_op p (Composite self other plast)))"

definition add_shared :: "kind \<Rightarrow> kind \<Rightarrow> capability set" where
  "add_shared k1 k2 = (properties k1 \<inter> properties k2) - {PProx}"

definition prune :: "kind \<Rightarrow> capability set \<Rightarrow> capability set" where
  "prune Op S = (if Op \<in> {LinOp, DiffFunc, LinFunc} then S - {PJacobian} else S) - {PSingleValued}"

definition Property_add :: "'a env \<Rightarrow> 'a operator \<Rightarrow> 'a operator \<Rightarrow> error + 'a operator" where
  "Property_add e self other =
     (case infer_sum_shape (shape self) (shape other) of
        Inl err \<Rightarrow> Inl ValueError
      | Inr out_shape \<Rightarrow>
          (let shared = add_shared (cls self) (cls other);
               Op = resolve_kind e shared;
               ps = iter e (prune Op shared)
           in case new_operator Op out_shape of
                Inl err \<Rightarrow> Inl err
              | Inr out_op \<Rightarrow>
                  (case for_each (add_body self other (last ps)) ps out_op of
                     Inl err \<Rightarrow> Inl err
                   | Inr out_op' \<Rightarrow> squeeze e out_op')))"

text \<open>\<^verbatim>\<open>ProxFunc.__add__\<close> and \<^verbatim>\<open>LinFunc.__add__\<close>.\<close>

definition ProxFunc_add :: "'a env \<Rightarrow> 'a operator \<Rightarrow> 'a operator \<Rightarrow> error + 'a operator" where
  "ProxFunc_add e self other =
     (case Property_add e self other of
        Inl err \<Rightarrow> Inl err
      | Inr f \<Rightarrow>
          if is_LinFunc (cls other) then
            (case specialize e f ProxFunc of
               Inl err \<Rightarrow> Inl err
             | Inr f' \<Rightarrow> squeeze e (setattr f' PProx (ProxAddLin self other)))
          else squeeze e f)"

definition LinFunc_add :: "'a env \<Rightarrow> 'a operator \<Rightarrow> 'a operator \<Rightarrow> error + 'a operator" where
  "LinFunc_add e self other = ProxFunc_add e other self"

text \<open>The expression \<^verbatim>\<open>a + b\<close>: the \<^verbatim>\<open>__add__\<close> of the class of the left operand.\<close>

definition op_add :: "'a env \<Rightarrow> 'a operator \<Rightarrow> 'a operator \<Rightarrow> error + 'a operator" where
  "op_add e a b =
     (if cls a = ProxFunc then ProxFunc_add e a b
      else if cls a = LinFunc then LinFunc_add e a b
      else Property_add e a b)"

subsection \<open>Multiplication\<close>

text \<open>
  The body of the loop of \<^verbatim>\<open>Property.__mul__\<close>; a name that matches no branch
  ("single_valued", "prox") binds nothing.
\<close>

definition mul_body ::
  "'a operator \<Rightarrow> 'a operator \<Rightarrow> capability \<Rightarrow> 'a operator \<Rightarrow> error + 'a operator" where
  "mul_body self other p out_op =
     (if p = PApply then Inr (setattr out_op PApply (MulApply self other))
      else if p = PLipschitz then
        (case out_op of Operator k s l d as \<Rightarrow>
           Inr (Operator k s (num_mul (attr_lipschitz self) (attr_lipschitz other)) d as))
      else if p = PDiffLipschitz then
        (if is_LinOp (cls self) then
           (case attr_diff_lipschitz other of
              None \<Rightarrow> Inl AttributeError
            | Some b \<Rightarrow> Inr (set_diff_lipschitz out_op (num_mul (attr_lipschitz self) b)))
         else if is_LinOp (cls other) then
           (case attr_diff_lipschitz self of
              None \<Rightarrow> Inl AttributeError
            | Some a \<Rightarrow> Inr (set_diff_lipschitz out_op
                 (num_mul a (num_mul (attr_lipschitz other) (attr_lipschitz other)))))
         else Inr (set_diff_lipschitz out_op Infty))
      else if p = PGradient then Inr (setattr out_op PGradient (MulGradient self other))
      else if p = PJacobian then Inr (setattr out_op PJacobian (MulJacobian self other))
      else if p = PAdjoint then Inr (setattr out_op PAdjoint (MulAdjoint self other))
      else Inr out_op)"

definition mul_shared :: "'a operator \<Rightarrow> 'a operator \<Rightarrow> capability set" where
  "mul_shared self other =
     (let shared = (properties (cls self) \<inter> properties (cls other)) - {PProx}
      in if fst (shape self) = 1 \<and> PJacobian \<in> shared
         then shared \<union> {PGradient, PSingleValued} else shared)"

text \<open>\<^verbatim>\<open>Property.__mul__\<close> for a right factor that is an operator.\<close>

definition Property_mul :: "'a env \<Rightarrow> 'a operator \<Rightarrow> 'a operator \<Rightarrow> error + 'a operator" where
  "Property_mul e self other =
     (case infer_composition_shape (shape self) (shape other) of
        Inl err \<Rightarrow> Inl ValueError
      | Inr out_shape \<Rightarrow>
          (let shared = mul_shared self other;
               Op = resolve_kind e shared
           in case new_operator Op out_shape of
                Inl err \<Rightarrow> Inl err
              | Inr out_op \<Rightarrow>
                  (case for_each (mul_body self other) (iter e (prune Op shared)) out_op of
                     Inl err \<Rightarrow> Inl err
                   | Inr out_op' \<Rightarrow> squeeze e out_op')))"

text \<open>
  \<^verbatim>\<open>ProxFunc.__mul__\<close> for a right factor that is an operator. The result of
  \<^verbatim>\<open>f.specialize(cast_to=ProxFunc)\<close> is not assigned: only its exception, if any, is seen.
  The name \<^verbatim>\<open>HomothetyOp\<close> is bound by no statement at module level (the two imports of it
  are local to \<^verbatim>\<open>Property.__mul__\<close> and \<^verbatim>\<open>argscale\<close>), so the \<^verbatim>\<open>elif\<close> test raises
  \<^verbatim>\<open>NameError\<close> whenever it is reached.
\<close>

definition ProxFunc_mul :: "'a env \<Rightarrow> 'a operator \<Rightarrow> 'a operator \<Rightarrow> error + 'a operator" where
  "ProxFunc_mul e self other =
     (case Property_mul e self other of
        Inl err \<Rightarrow> Inl err
      | Inr f \<Rightarrow>
          if is_UnitOp (cls other) then
            (case specialize e f ProxFunc of
               Inl err \<Rightarrow> Inl err
             | Inr discarded \<Rightarrow> squeeze e (setattr f PProx (ProxMulUnit self other)))
          else Inl NameError)"

text \<open>The expression \<^verbatim>\<open>a * b\<close> for two operators.\<close>

definition op_mul :: "'a env \<Rightarrow> 'a operator \<Rightarrow> 'a operator \<Rightarrow> error + 'a operator" where
  "op_mul e a b = (if cls a = ProxFunc then ProxFunc_mul e a b else Property_mul e a b)"

text \<open>
  Modelled from the spec: the class \<^verbatim>\<open>HomothetyOp\<close> and its \<^verbatim>\<open>__mul__\<close> are not part of the
  sources at hand. \<^verbatim>\<open>Property.__mul__\<close> with a right factor that is a number returns
  \<^verbatim>\<open>HomothetyOp(other, dim=self.shape[0]).__mul__(self)\<close>, which by the spec is the
  composition of the homothety with \<^verbatim>\<open>self\<close> by the rule for two operators.
\<close>

definition Property_mul_scalar :: "'a env \<Rightarrow> 'a operator \<Rightarrow> number \<Rightarrow> error + 'a operator" where
  "Property_mul_scalar e self c = op_mul e (HomothetyOp e c (Some (fst (shape self)))) self"

text \<open>
  \<^verbatim>\<open>a * c\<close> for a number \<open>c\<close>: \<^verbatim>\<open>ProxFunc.__mul__\<close> goes on to its two \<^verbatim>\<open>isinstance\<close> tests,
  the second of which raises \<^verbatim>\<open>NameError\<close>.
\<close>

definition op_mul_scalar :: "'a env \<Rightarrow> 'a operator \<Rightarrow> number \<Rightarrow> error + 'a operator" where
  "op_mul_scalar e a c =
     (if cls a = ProxFunc then
        (case Property_mul_scalar e a c of Inl err \<Rightarrow> Inl err | Inr f \<Rightarrow> Inl NameError)
      else Property_mul_scalar e a c)"

subsection \<open>Power, negation, subtraction, division, domain rescaling\<close>

fun pow_loop :: "'a env \<Rightarrow> 'a operator \<Rightarrow> nat \<Rightarrow> 'a operator \<Rightarrow> error + 'a operator" where
  "pow_loop e self 0 exp_map = Inr exp_map"
| "pow_loop e self (Suc n) exp_map =
     (case op_mul e self exp_map of
        Inl err \<Rightarrow> Inl err
      | Inr exp_map' \<Rightarrow> pow_loop e self n exp_map')"

text \<open>
  \<^verbatim>\<open>Property.__pow__\<close> for an \<^verbatim>\<open>int\<close> power: the loop \<^verbatim>\<open>for i in range(1, power)\<close> runs
  \<^verbatim>\<open>power - 1\<close> times, and not at all for a negative power.
\<close>

definition Property_pow :: "'a env \<Rightarrow> 'a operator \<Rightarrow> int \<Rightarrow> error + 'a operator" where
  "Property_pow e self pw =
     (if pw = 0 then Inr (IdentityOperator e (shape self))
      else pow_loop e self (nat (pw - 1)) self)"

definition ProjOp_pow :: "'a env \<Rightarrow> 'a operator \<Rightarrow> int \<Rightarrow> error + 'a operator" where
  "ProjOp_pow e self pw =
     (if pw = 0 then Inr (IdentityOperator e (shape self)) else Inr self)"

definition op_pow :: "'a env \<Rightarrow> 'a operator \<Rightarrow> int \<Rightarrow> error + 'a operator" where
  "op_pow e a pw =
     (if cls a = ProjOp \<or> cls a = OrthProjOp then ProjOp_pow e a pw
      else Property_pow e a pw)"

definition op_neg :: "'a env \<Rightarrow> 'a operator \<Rightarrow> error + 'a operator" where
  "op_neg e self = op_mul_scalar e self (Fin (- 1))"

definition op_sub :: "'a env \<Rightarrow> 'a operator \<Rightarrow> 'a operator \<Rightarrow> error + 'a operator" where
  "op_sub e self other =
     (case op_neg e other of Inl err \<Rightarrow> Inl err | Inr neg \<Rightarrow> op_add e self neg)"

text \<open>\<^verbatim>\<open>__truediv__\<close>: \<^verbatim>\<open>self.__mul__(1 / scalar)\<close>, the division being done first.\<close>

definition op_truediv :: "'a env \<Rightarrow> 'a operator \<Rightarrow> scalar \<Rightarrow> error + 'a operator" where
  "op_truediv e self scalar =
     (case reciprocal scalar of
        Inl err \<Rightarrow> Inl err
      | Inr c \<Rightarrow> op_mul_scalar e self c)"

definition argscale :: "'a env \<Rightarrow> 'a operator \<Rightarrow> number \<Rightarrow> error + 'a operator" where
  "argscale e self scalar = op_mul e self (HomothetyOp e scalar (snd (shape self)))"

subsection \<open>Domain shift\<close>

text \<open>
  The loop of \<^verbatim>\<open>argshift\<close> runs over \<^verbatim>\<open>out_op.properties()\<close> (the set \<^verbatim>\<open>props\<close> that the
  two \<^verbatim>\<open>discard\<close> calls prune is not used again). \<^verbatim>\<open>argshifted_method\<close> reads \<^verbatim>\<open>prop\<close>
  when it is called: \<open>plast\<close> is the value of \<^verbatim>\<open>prop\<close> after the loop. The shift vector is
  an array, so that \<^verbatim>\<open>arr.copy().squeeze()\<close> does not raise; \<open>dim_of\<close> gives the
  \<^verbatim>\<open>shape[-1]\<close> of the squeezed array. For an array of one element the squeezed array has
  the shape \<^verbatim>\<open>()\<close> and the subscript raises \<^verbatim>\<open>IndexError\<close>, in the test when the operator
  has a domain size and in the next statement when it has none.
\<close>

definition argshift_body ::
  "'a operator \<Rightarrow> 'a \<Rightarrow> capability \<Rightarrow> capability \<Rightarrow> 'a operator \<Rightarrow> error + 'a operator" where
  "argshift_body self arr plast p out_op =
     (if p = PDiffLipschitz then
        (case attr_diff_lipschitz self of
           None \<Rightarrow> Inl AttributeError
         | Some d \<Rightarrow> Inr (set_diff_lipschitz out_op d))
      else if p = PProx then Inr (setattr out_op PProx (ShiftedProx self arr))
      else Inr (setattr out_op p (Shifted self arr plast)))"

definition argshift :: "'a env \<Rightarrow> 'a operator \<Rightarrow> 'a \<Rightarrow> error + 'a operator" where
  "argshift e self arr =
     (case dim_of e arr of
        None \<Rightarrow> Inl IndexError
      | Some n \<Rightarrow>
          if snd (shape self) = None \<or> snd (shape self) = Some n then
            (let out_shape = (fst (shape self), Some n);
                 out_cls = (if is_LinFunc (cls self) then DiffFunc
                            else if is_LinOp (cls self) then DiffMap
                            else cls self);
                 ps = iter e (properties out_cls)
             in case new_operator out_cls out_shape of
                  Inl err \<Rightarrow> Inl err
                | Inr out_op \<Rightarrow>
                    (case for_each (argshift_body self arr (last ps)) ps out_op of
                       Inl err \<Rightarrow> Inl err
                     | Inr out_op' \<Rightarrow> squeeze e out_op'))
          else Inl ValueError)"

section \<open>Calling a bound method\<close>

text \<open>
  The bodies of the closures, evaluated. A method body receives Python values; a body that
  needs an array and is handed something else is taken to raise \<^verbatim>\<open>TypeError\<close>, a call with
  the wrong number of arguments raises \<^verbatim>\<open>TypeError\<close>, and asking a value that is not an
  operator for a method raises \<^verbatim>\<open>AttributeError\<close>. The decorator \<^verbatim>\<open>enforce_precision\<close>
  (a cast of the array argument to the configured float type) is left out. A call that never
  returns has the value \<open>None\<close>.
\<close>

definition asarray_arg :: "'a env \<Rightarrow> 'a operator \<Rightarrow> error + 'a val list" where
  "asarray_arg e self =
     (if is_LinOp (cls self) then
        (case snd (shape self) of None \<Rightarrow> Inl TypeError | Some n \<Rightarrow> Inr [VArr (eye e n)])
      else Inl AttributeError)"

fun val_add :: "'a::real_vector env \<Rightarrow> 'a val \<Rightarrow> 'a val \<Rightarrow> error + 'a val" where
  "val_add e (VArr a) (VArr b) = Inr (VArr (a + b))"
| "val_add e (VOp a) (VOp b) = map_sum id VOp (op_add e a b)"
| "val_add e _ _ = Inl TypeError"

fun val_mul :: "'a::real_vector env \<Rightarrow> 'a val \<Rightarrow> 'a val \<Rightarrow> error + 'a val" where
  "val_mul e (VOp a) (VOp b) = map_sum id VOp (op_mul e a b)"
| "val_mul e _ _ = Inl TypeError"

type_synonym 'a result = "(error + 'a val) option"

definition on_ok :: "error + 'b \<Rightarrow> ('b \<Rightarrow> 'a result) \<Rightarrow> 'a result" where
  "on_ok r k = (case r of Inl err \<Rightarrow> Some (Inl err) | Inr v \<Rightarrow> k v)"

definition and_then :: "'a result \<Rightarrow> ('a val \<Rightarrow> 'a result) \<Rightarrow> 'a result" where
  "and_then x k = Option.bind x (\<lambda>r. on_ok r k)"

definition as_op :: "'a val \<Rightarrow> ('a operator \<Rightarrow> 'a result) \<Rightarrow> 'a result" where
  "as_op v k = (case v of VOp J \<Rightarrow> k J | _ \<Rightarrow> Some (Inl AttributeError))"

definition as_arr :: "'a val \<Rightarrow> ('a \<Rightarrow> 'a result) \<Rightarrow> 'a result" where
  "as_arr v k = (case v of VArr a \<Rightarrow> k a | _ \<Rightarrow> Some (Inl TypeError))"

definition as_num :: "'a val \<Rightarrow> (real \<Rightarrow> 'a result) \<Rightarrow> 'a result" where
  "as_num v k = (case v of VNum t \<Rightarrow> k t | _ \<Rightarrow> Some (Inl TypeError))"

definition one_arg :: "'a val list \<Rightarrow> ('a val \<Rightarrow> 'a result) \<Rightarrow> 'a result" where
  "one_arg args k = (case args of [x] \<Rightarrow> k x | _ \<Rightarrow> Some (Inl TypeError))"

definition two_args :: "'a val list \<Rightarrow> ('a val \<Rightarrow> 'a val \<Rightarrow> 'a result) \<Rightarrow> 'a result" where
  "two_args args k = (case args of [x, tau] \<Rightarrow> k x tau | _ \<Rightarrow> Some (Inl TypeError))"

lemma one_arg_mono [partial_function_mono]:
  assumes "\<And>v. mono_option (\<lambda>f. k f v)"
  shows "mono_option (\<lambda>f. one_arg args (k f))"
  by (cases args; cases "tl args") (simp_all add: one_arg_def option.const_mono assms)

lemma two_args_mono [partial_function_mono]:
  assumes "\<And>v w. mono_option (\<lambda>f. k f v w)"
  shows "mono_option (\<lambda>f. two_args args (k f))"
  by (cases args; cases "tl args"; cases "tl (tl args)")
     (simp_all add: two_args_def option.const_mono assms)

lemma on_ok_mono [partial_function_mono]:
  assumes "\<And>v. mono_option (\<lambda>f. k f v)"
  shows "mono_option (\<lambda>f. on_ok r (k f))"
  using assms by (cases r) (simp_all add: on_ok_def option.const_mono)

lemma and_then_mono [partial_function_mono]:
  assumes "mono_option B" and "\<And>v. mono_option (\<lambda>f. k f v)"
  shows "mono_option (\<lambda>f. and_then (B f) (k f))"
  unfolding and_then_def by (intro partial_function_mono assms)

lemma as_op_mono [partial_function_mono]:
  assumes "\<And>v. mono_option (\<lambda>f. k f v)"
  shows "mono_option (\<lambda>f. as_op r (k f))"
  using assms by (cases r) (simp_all add: as_op_def option.const_mono)

lemma as_arr_mono [partial_function_mono]:
  assumes "\<And>v. mono_option (\<lambda>f. k f v)"
  shows "mono_option (\<lambda>f. as_arr r (k f))"
  using assms by (cases r) (simp_all add: as_arr_def option.const_mono)

lemma as_num_mono [partial_function_mono]:
  assumes "\<And>v. mono_option (\<lambda>f. k f v)"
  shows "mono_option (\<lambda>f. as_num r (k f))"
  using assms by (cases r) (simp_all add: as_num_def option.const_mono)

type_synonym 'a caller = "'a impl \<Rightarrow> 'a val list \<Rightarrow> 'a result"

definition class_method ::
  "'a::real_vector caller \<Rightarrow> 'a env \<Rightarrow> 'a operator \<Rightarrow> capability \<Rightarrow> 'a val list \<Rightarrow> 'a result" where
  "class_method c e self p args =
     (if p = PSingleValued then
        (if args = [] then Some (Inr (VBool True)) else Some (Inl TypeError))
      else if p = PProx then
        (if length args = 2 then Some (Inl NotImplementedError) else Some (Inl TypeError))
      else if length args \<noteq> 1 then Some (Inl TypeError)
      else if p = PApply then Some (Inl NotImplementedError)
      else if p = PJacobian then
        (if is_LinOp (cls self) then Some (Inr (VOp self))
         else if cls self = DiffFunc then
           on_ok (getattr self PGradient) (\<lambda>g.
           and_then (c g args) (\<lambda>v.
           as_arr v (\<lambda>a. Some (Inr (VOp (ExplicitLinFunc e a))))))
         else Some (Inl NotImplementedError))
      else if p = PGradient then Some (Inl NotImplementedError)
      else if p = PAdjoint then
        (if is_SelfAdjointOp (cls self)
         then on_ok (getattr self PApply) (\<lambda>a. c a args)
         else Some (Inl NotImplementedError))
      else Some (Inl AttributeError))"

fun call_body :: "'a::real_vector caller \<Rightarrow> 'a env \<Rightarrow> 'a impl \<Rightarrow> 'a val list \<Rightarrow> 'a result" where
  "call_body c e (Prim1 f) args = one_arg args (\<lambda>x. as_arr x (\<lambda>a. Some (f a)))"
| "call_body c e (Prim2 f) args =
     two_args args (\<lambda>x tau. as_arr x (\<lambda>a. as_num tau (\<lambda>t. Some (f a t))))"
| "call_body c e (ClassMethod self p) args = class_method c e self p args"
| "call_body c e (Composite self other plast) args = one_arg args (\<lambda>x.
     on_ok (getattr self plast) (\<lambda>ms.
     and_then (c ms [x]) (\<lambda>v.
     on_ok (getattr other plast) (\<lambda>mo.
     and_then (c mo [x]) (\<lambda>w. Some (val_add e v w))))))"
| "call_body c e (MulApply self other) args = one_arg args (\<lambda>x.
     on_ok (getattr self PApply) (\<lambda>ms.
     on_ok (getattr other PApply) (\<lambda>mo.
     and_then (c mo [x]) (\<lambda>y. c ms [y]))))"
| "call_body c e (MulGradient self other) args = one_arg args (\<lambda>x.
     on_ok (getattr other PJacobian) (\<lambda>mj.
     and_then (c mj [x]) (\<lambda>j.
     as_op j (\<lambda>J.
     on_ok (getattr J PAdjoint) (\<lambda>ma.
     on_ok (getattr self PGradient) (\<lambda>mg.
     on_ok (getattr other PApply) (\<lambda>mo.
     and_then (c mo [x]) (\<lambda>y.
     and_then (c mg [y]) (\<lambda>g. c ma [g])))))))))"
| "call_body c e (MulJacobian self other) args = one_arg args (\<lambda>x.
     on_ok (getattr self PJacobian) (\<lambda>ms.
     on_ok (getattr other PApply) (\<lambda>mo.
     and_then (c mo [x]) (\<lambda>y.
     and_then (c ms [y]) (\<lambda>j1.
     on_ok (getattr other PJacobian) (\<lambda>mj.
     and_then (c mj [x]) (\<lambda>j2. Some (val_mul e j1 j2))))))))"
| "call_body c e (MulAdjoint self other) args = one_arg args (\<lambda>x.
     on_ok (getattr other PAdjoint) (\<lambda>mo.
     on_ok (getattr self PAdjoint) (\<lambda>ms.
     and_then (c ms [x]) (\<lambda>y. c mo [y]))))"
| "call_body c e (SpecGradient self) args = one_arg args (\<lambda>x.
     on_ok (getattr self PJacobian) (\<lambda>mj.
     and_then (c mj [x]) (\<lambda>j.
     as_op j (\<lambda>J.
     on_ok (asarray_arg e J) (\<lambda>eye_args.
     on_ok (getattr J PApply) (\<lambda>ma.
     and_then (c ma eye_args) (\<lambda>a.
     as_arr a (\<lambda>a'. Some (Inr (VArr (flatten e a')))))))))))"
| "call_body c e (ProxAddLin self other) args = two_args args (\<lambda>x tau.
     on_ok (getattr self PProx) (\<lambda>mp.
     on_ok (asarray_arg e other) (\<lambda>eye_args.
     on_ok (getattr other PApply) (\<lambda>ma.
     and_then (c ma eye_args) (\<lambda>l.
     as_arr x (\<lambda>x'. as_num tau (\<lambda>t. as_arr l (\<lambda>l'.
       c mp [VArr (x' - t *\<^sub>R l'), tau]))))))))"
| "call_body c e (ProxMulUnit self other) args = two_args args (\<lambda>x tau.
     on_ok (getattr other PAdjoint) (\<lambda>ma.
     on_ok (getattr self PProx) (\<lambda>mp.
     on_ok (getattr other PApply) (\<lambda>mo.
     and_then (c mo [x]) (\<lambda>y.
     and_then (c mp [y, tau]) (\<lambda>z. c ma [z]))))))"
| "call_body c e (Shifted self arr plast) args = one_arg args (\<lambda>x.
     on_ok (getattr self plast) (\<lambda>ms.
     as_arr x (\<lambda>x'. c ms [VArr (x' + arr)])))"
| "call_body c e (ShiftedProx self arr) args = two_args args (\<lambda>x tau.
     on_ok (getattr self PProx) (\<lambda>mp.
     as_arr x (\<lambda>x'.
     and_then (c mp [VArr (x' + arr), tau]) (\<lambda>y.
     as_arr y (\<lambda>y'. Some (Inr (VArr (y' - arr))))))))"

lemma class_method_mono [partial_function_mono]:
  assumes "\<And>m a. mono_option (\<lambda>f. c f m a)"
  shows "mono_option (\<lambda>f. class_method (c f) e self p args)"
  unfolding class_method_def by (intro partial_function_mono assms)

lemma call_body_mono [partial_function_mono]:
  assumes "\<And>m a. mono_option (\<lambda>f. c f m a)"
  shows "mono_option (\<lambda>f. call_body (c f) e m args)"
  by (cases m) (auto intro!: partial_function_mono assms)

partial_function (option) call ::
  "'a::real_vector env \<Rightarrow> 'a impl \<Rightarrow> 'a val list \<Rightarrow> (error + 'a val) option" where
  "call e m args = call_body (call e) e m args"

text \<open>\<^verbatim>\<open>self.p(args)\<close>: attribute lookup, then the call.\<close>

definition invoke ::
  "'a::real_vector env \<Rightarrow> 'a operator \<Rightarrow> capability \<Rightarrow> 'a val list \<Rightarrow> 'a result" where
  "invoke e self p args = on_ok (getattr self p) (\<lambda>m. call e m args)"

section \<open>Classes of results and the closure tables\<close>

text \<open>Two instances with the same class, shape and scalar attributes: what \<^verbatim>\<open>setattr\<close> of a method leaves unchanged.\<close>

definition same_frame :: "'a operator \<Rightarrow> 'a operator \<Rightarrow> bool" where
  "same_frame a b = (cls b = cls a \<and> shape b = shape a \<and> attr_lipschitz b = attr_lipschitz a
                     \<and> attr_diff_lipschitz b = attr_diff_lipschitz a)"

text \<open>The seven base classes, the members of \<^verbatim>\<open>_base_operators\<close>.\<close>

definition base_kinds :: "kind set" where
  "base_kinds = {Map, DiffMap, Func_kind, DiffFunc, ProxFunc, LinOp, LinFunc}"

text \<open>The class and shape of the result of \<^verbatim>\<open>specialize\<close>, or its exception, as a function of the class and shape of the instance.\<close>

definition specialize_kind :: "kind \<Rightarrow> shape \<Rightarrow> kind \<Rightarrow> error + kind \<times> shape" where
  "specialize_kind k s cast_to =
     (if cast_to = k then Inr (k, s)
      else if properties cast_to \<subset> properties k then Inl ValueError
      else (case init_shape cast_to s of Inl err \<Rightarrow> Inl err | Inr s' \<Rightarrow> Inr (cast_to, s')))"

text \<open>The same for \<^verbatim>\<open>squeeze\<close>.\<close>

definition squeeze_kind :: "kind \<Rightarrow> shape \<Rightarrow> error + kind \<times> shape" where
  "squeeze_kind k s = (if fst s = 1 then specialize_kind k s (squeeze_out k) else Inr (k, s))"

text \<open>The same for \<^verbatim>\<open>Property.__add__\<close>.\<close>

definition add_kind :: "'a env \<Rightarrow> kind \<Rightarrow> shape \<Rightarrow> kind \<Rightarrow> shape \<Rightarrow> error + kind \<times> shape" where
  "add_kind e k1 s1 k2 s2 =
     (case infer_sum_shape s1 s2 of
        Inl err \<Rightarrow> Inl ValueError
      | Inr s \<Rightarrow>
          (case init_shape (resolve_kind e (add_shared k1 k2)) s of
             Inl err \<Rightarrow> Inl err
           | Inr s' \<Rightarrow> squeeze_kind (resolve_kind e (add_shared k1 k2)) s'))"

text \<open>The same for \<^verbatim>\<open>Property.__mul__\<close>.\<close>

definition mul_kind :: "'a env \<Rightarrow> 'a operator \<Rightarrow> 'a operator \<Rightarrow> error + kind \<times> shape" where
  "mul_kind e a b =
     (case infer_composition_shape (shape a) (shape b) of
        Inl err \<Rightarrow> Inl ValueError
      | Inr s \<Rightarrow>
          (case init_shape (resolve_kind e (mul_shared a b)) s of
             Inl err \<Rightarrow> Inl err
           | Inr s' \<Rightarrow> squeeze_kind (resolve_kind e (mul_shared a b)) s'))"

text \<open>The single-valued counterpart of a kind, in the words of the spec: Map to Func, DiffMap to DiffFunc, LinOp to LinFunc.\<close>

definition single_valued_counterpart :: "kind \<Rightarrow> kind" where
  "single_valued_counterpart k =
     (if k = Map then Func_kind else if k = DiffMap then DiffFunc
      else if k = LinOp then LinFunc else k)"

text \<open>The closure table in the docstring of \<^verbatim>\<open>__add__\<close>, its lower half filled by symmetry as the docstring says.\<close>

definition add_table :: "kind \<Rightarrow> kind \<Rightarrow> kind" where
  "add_table k1 k2 =
     (case k1 of
        Map \<Rightarrow> Map
      | DiffMap \<Rightarrow> (case k2 of Map \<Rightarrow> Map | DiffMap \<Rightarrow> DiffMap | Func_kind \<Rightarrow> Map
            | DiffFunc \<Rightarrow> DiffMap | ProxFunc \<Rightarrow> Map | LinOp \<Rightarrow> DiffMap | LinFunc \<Rightarrow> DiffMap
            | _ \<Rightarrow> Map)
      | Func_kind \<Rightarrow> (case k2 of Map \<Rightarrow> Map | DiffMap \<Rightarrow> Map | Func_kind \<Rightarrow> Func_kind
            | DiffFunc \<Rightarrow> Func_kind | ProxFunc \<Rightarrow> Func_kind | LinOp \<Rightarrow> Map
            | LinFunc \<Rightarrow> Func_kind | _ \<Rightarrow> Map)
      | DiffFunc \<Rightarrow> (case k2 of Map \<Rightarrow> Map | DiffMap \<Rightarrow> DiffMap | Func_kind \<Rightarrow> Func_kind
            | DiffFunc \<Rightarrow> DiffFunc | ProxFunc \<Rightarrow> Func_kind | LinOp \<Rightarrow> DiffMap
            | LinFunc \<Rightarrow> DiffFunc | _ \<Rightarrow> Map)
      | ProxFunc \<Rightarrow> (case k2 of Map \<Rightarrow> Map | DiffMap \<Rightarrow> Map | Func_kind \<Rightarrow> Func_kind
            | DiffFunc \<Rightarrow> Func_kind | ProxFunc \<Rightarrow> Func_kind | LinOp \<Rightarrow> Map
            | LinFunc \<Rightarrow> ProxFunc | _ \<Rightarrow> Map)
      | LinOp \<Rightarrow> (case k2 of Map \<Rightarrow> Map | DiffMap \<Rightarrow> DiffMap | Func_kind \<Rightarrow> Map
            | DiffFunc \<Rightarrow> DiffMap | ProxFunc \<Rightarrow> Map | LinOp \<Rightarrow> LinOp | LinFunc \<Rightarrow> LinOp
            | _ \<Rightarrow> Map)
      | LinFunc \<Rightarrow> (case k2 of Map \<Rightarrow> Map | DiffMap \<Rightarrow> DiffMap | Func_kind \<Rightarrow> Func_kind
            | DiffFunc \<Rightarrow> DiffFunc | ProxFunc \<Rightarrow> ProxFunc | LinOp \<Rightarrow> LinOp
            | LinFunc \<Rightarrow> LinFunc | _ \<Rightarrow> Map)
      | _ \<Rightarrow> Map)"


text \<open>The base class with a given canonical capability set, by membership tests.\<close>

definition kind_of :: "capability set \<Rightarrow> kind" where
  "kind_of S =
     (if PAdjoint \<in> S then (if PSingleValued \<in> S then LinFunc else LinOp)
      else if PProx \<in> S then ProxFunc
      else if PJacobian \<in> S then (if PSingleValued \<in> S then DiffFunc else DiffMap)
      else if PSingleValued \<in> S then Func_kind else Map)"

text \<open>The class and the shape of an instance.\<close>

definition frame :: "'a operator \<Rightarrow> kind \<times> shape" where
  "frame a = (cls a, shape a)"

text \<open>The entry of the addition table, but for the pair ProxFunc and LinFunc: there the table gives ProxFunc, which is the work of \<^verbatim>\<open>ProxFunc.__add__\<close>, while \<^verbatim>\<open>Property.__add__\<close> resolves Func.\<close>

definition add_entry :: "kind \<Rightarrow> kind \<Rightarrow> kind" where
  "add_entry k1 k2 =
     (if (k1 = ProxFunc \<and> k2 = LinFunc) \<or> (k1 = LinFunc \<and> k2 = ProxFunc) then Func_kind
      else add_table k1 k2)"



text \<open>An instance whose two scalar attributes are still those its constructor set.\<close>

definition default_scalars :: "'a operator \<Rightarrow> bool" where
  "default_scalars a = (attr_lipschitz a = init_lipschitz (cls a)
                        \<and> attr_diff_lipschitz a = init_diff_lipschitz (cls a))"

section \<open>Instances in a store\<close>

text \<open>
  Python's instances are objects known by reference, and \<^verbatim>\<open>setattr\<close> changes the object
  it is given. To say what a combinator does to its operands, the instances are held in a
  store, the list of the instances made so far, and an instance is known by its address, its
  index in the list. A constructor puts the new instance at the end of the store; an
  assignment to an attribute replaces the instance at an address; a combinator takes the
  addresses of its operands and returns the store it leaves and the address of its result or
  its exception. Each function below is the function of the same name without \<open>st_\<close>, with
  the same loop bodies, the constructor calls and the assignments being done in the store.
  A closure holds its operands as they are when it is made. An address that holds no instance
  stands for an unbound name.
\<close>

type_synonym 'a store = "'a operator list"

type_synonym 'a outcome = "'a store \<times> (error + nat)"

text \<open>One statement after another: the second is not run when the first raises.\<close>

definition st_then :: "'a outcome \<Rightarrow> (nat \<Rightarrow> 'a store \<Rightarrow> 'a outcome) \<Rightarrow> 'a outcome" where
  "st_then m k = (case snd m of Inl err \<Rightarrow> (fst m, Inl err) | Inr r \<Rightarrow> k r (fst m))"

text \<open>\<^verbatim>\<open>Op(shape)\<close>, and the constructors of \<^verbatim>\<open>pycsou.linop.base\<close> given by the environment.\<close>

definition st_new :: "kind \<Rightarrow> shape \<Rightarrow> 'a store \<Rightarrow> 'a outcome" where
  "st_new k s h =
     (case new_operator k s of
        Inl err \<Rightarrow> (h, Inl err)
      | Inr obj \<Rightarrow> (h @ [obj], Inr (length h)))"

definition st_alloc :: "'a operator \<Rightarrow> 'a store \<Rightarrow> 'a outcome" where
  "st_alloc obj h = (h @ [obj], Inr (length h))"

text \<open>
  An assignment to an attribute of the instance at address \<open>r\<close>; \<open>f\<close> gives the instance
  after the assignment, or the exception raised while its right-hand side is computed.
\<close>

definition st_assign ::
  "('a operator \<Rightarrow> error + 'a operator) \<Rightarrow> nat \<Rightarrow> 'a store \<Rightarrow> 'a outcome" where
  "st_assign f r h =
     (if r < length h then
        (case f (h ! r) of
           Inl err \<Rightarrow> (h, Inl err)
         | Inr obj \<Rightarrow> (h[r := obj], Inr r))
      else (h, Inl NameError))"

text \<open>A \<^verbatim>\<open>for\<close> loop whose body assigns to the instance at address \<open>r\<close>.\<close>

fun st_for_each :: "(capability \<Rightarrow> 'a operator \<Rightarrow> error + 'a operator) \<Rightarrow> capability list
                    \<Rightarrow> nat \<Rightarrow> 'a store \<Rightarrow> 'a outcome" where
  "st_for_each body [] r h = (h, Inr r)"
| "st_for_each body (p # ps) r h =
     (case st_assign (body p) r h of
        (h1, Inl err) \<Rightarrow> (h1, Inl err)
      | (h1, Inr r1) \<Rightarrow> st_for_each body ps r1 h1)"

text \<open>\<^verbatim>\<open>specialize\<close>: \<^verbatim>\<open>obj = self\<close> when the class asked is that of \<^verbatim>\<open>self\<close>, a new instance otherwise.\<close>

definition st_specialize :: "'a env \<Rightarrow> nat \<Rightarrow> kind \<Rightarrow> 'a store \<Rightarrow> 'a outcome" where
  "st_specialize e a cast_to h =
     (if a < length h then
        (if cast_to = cls (h ! a) then (h, Inr a)
         else if properties cast_to \<subset> properties (cls (h ! a)) then (h, Inl ValueError)
         else st_then (st_new cast_to (shape (h ! a)) h)
                (st_for_each (specialize_body (h ! a) cast_to)
                   (iter e (properties (cls (h ! a))))))
      else (h, Inl NameError))"

definition st_squeeze :: "'a env \<Rightarrow> nat \<Rightarrow> 'a store \<Rightarrow> 'a outcome" where
  "st_squeeze e a h =
     (if a < length h then
        (if fst (shape (h ! a)) = 1 then st_specialize e a (squeeze_out (cls (h ! a))) h
         else (h, Inr a))
      else (h, Inl NameError))"

text \<open>\<^verbatim>\<open>Property.__add__\<close>, \<^verbatim>\<open>ProxFunc.__add__\<close>, \<^verbatim>\<open>LinFunc.__add__\<close> and \<^verbatim>\<open>a + b\<close>.\<close>

definition st_Property_add :: "'a env \<Rightarrow> nat \<Rightarrow> nat \<Rightarrow> 'a store \<Rightarrow> 'a outcome" where
  "st_Property_add e a b h =
     (if a < length h \<and> b < length h then
        (case infer_sum_shape (shape (h ! a)) (shape (h ! b)) of
           Inl err \<Rightarrow> (h, Inl ValueError)
         | Inr out_shape \<Rightarrow>
             (let shared = add_shared (cls (h ! a)) (cls (h ! b));
                  Op = resolve_kind e shared;
                  ps = iter e (prune Op shared)
              in st_then (st_new Op out_shape h) (\<lambda>out_op h1.
                   st_then (st_for_each (add_body (h ! a) (h ! b) (last ps)) ps out_op h1)
                     (st_squeeze e))))
      else (h, Inl NameError))"

definition st_ProxFunc_add :: "'a env \<Rightarrow> nat \<Rightarrow> nat \<Rightarrow> 'a store \<Rightarrow> 'a outcome" where
  "st_ProxFunc_add e a b h =
     st_then (st_Property_add e a b h) (\<lambda>f h1.
       if is_LinFunc (cls (h ! b)) then
         st_then (st_specialize e f ProxFunc h1) (\<lambda>f' h2.
           st_then (st_assign (\<lambda>obj. Inr (setattr obj PProx (ProxAddLin (h ! a) (h ! b)))) f' h2)
             (st_squeeze e))
       else st_squeeze e f h1)"

definition st_LinFunc_add :: "'a env \<Rightarrow> nat \<Rightarrow> nat \<Rightarrow> 'a store \<Rightarrow> 'a outcome" where
  "st_LinFunc_add e a b h = st_ProxFunc_add e b a h"

definition st_op_add :: "'a env \<Rightarrow> nat \<Rightarrow> nat \<Rightarrow> 'a store \<Rightarrow> 'a outcome" where
  "st_op_add e a b h =
     (if a < length h then
        (if cls (h ! a) = ProxFunc then st_ProxFunc_add e a b h
         else if cls (h ! a) = LinFunc then st_LinFunc_add e a b h
         else st_Property_add e a b h)
      else (h, Inl NameError))"

text \<open>\<^verbatim>\<open>Property.__mul__\<close> and \<^verbatim>\<open>ProxFunc.__mul__\<close> for a right factor that is an operator, and \<^verbatim>\<open>a * b\<close>.\<close>

definition st_Property_mul :: "'a env \<Rightarrow> nat \<Rightarrow> nat \<Rightarrow> 'a store \<Rightarrow> 'a outcome" where
  "st_Property_mul e a b h =
     (if a < length h \<and> b < length h then
        (case infer_composition_shape (shape (h ! a)) (shape (h ! b)) of
           Inl err \<Rightarrow> (h, Inl ValueError)
         | Inr out_shape \<Rightarrow>
             (let shared = mul_shared (h ! a) (h ! b);
                  Op = resolve_kind e shared
              in st_then (st_new Op out_shape h) (\<lambda>out_op h1.
                   st_then (st_for_each (mul_body (h ! a) (h ! b)) (iter e (prune Op shared))
                              out_op h1)
                     (st_squeeze e))))
      else (h, Inl NameError))"

definition st_ProxFunc_mul :: "'a env \<Rightarrow> nat \<Rightarrow> nat \<Rightarrow> 'a store \<Rightarrow> 'a outcome" where
  "st_ProxFunc_mul e a b h =
     st_then (st_Property_mul e a b h) (\<lambda>f h1.
       if is_UnitOp (cls (h ! b)) then
         st_then (st_specialize e f ProxFunc h1) (\<lambda>discarded h2.
           st_then (st_assign (\<lambda>obj. Inr (setattr obj PProx (ProxMulUnit (h ! a) (h ! b)))) f h2)
             (st_squeeze e))
       else (h1, Inl NameError))"

definition st_op_mul :: "'a env \<Rightarrow> nat \<Rightarrow> nat \<Rightarrow> 'a store \<Rightarrow> 'a outcome" where
  "st_op_mul e a b h =
     (if a < length h then
        (if cls (h ! a) = ProxFunc then st_ProxFunc_mul e a b h else st_Property_mul e a b h)
      else (h, Inl NameError))"

text \<open>
  Modelled from the spec: as for \<open>Property_mul_scalar\<close>, the product by a number is the
  composition of a new \<^verbatim>\<open>HomothetyOp\<close> instance with \<^verbatim>\<open>self\<close>.
\<close>

definition st_Property_mul_scalar :: "'a env \<Rightarrow> nat \<Rightarrow> number \<Rightarrow> 'a store \<Rightarrow> 'a outcome" where
  "st_Property_mul_scalar e a c h =
     (if a < length h then
        st_then (st_alloc (HomothetyOp e c (Some (fst (shape (h ! a))))) h) (\<lambda>hmap h1.
          st_op_mul e hmap a h1)
      else (h, Inl NameError))"

definition st_op_mul_scalar :: "'a env \<Rightarrow> nat \<Rightarrow> number \<Rightarrow> 'a store \<Rightarrow> 'a outcome" where
  "st_op_mul_scalar e a c h =
     (if a < length h then
        (if cls (h ! a) = ProxFunc then
           st_then (st_Property_mul_scalar e a c h) (\<lambda>f h1. (h1, Inl NameError))
         else st_Property_mul_scalar e a c h)
      else (h, Inl NameError))"

text \<open>\<^verbatim>\<open>__pow__\<close>, \<^verbatim>\<open>__neg__\<close>, \<^verbatim>\<open>__sub__\<close>, \<^verbatim>\<open>__truediv__\<close> and \<^verbatim>\<open>argscale\<close>.\<close>

fun st_pow_loop :: "'a env \<Rightarrow> nat \<Rightarrow> nat \<Rightarrow> nat \<Rightarrow> 'a store \<Rightarrow> 'a outcome" where
  "st_pow_loop e a 0 exp_map h = (h, Inr exp_map)"
| "st_pow_loop e a (Suc n) exp_map h =
     (case st_op_mul e a exp_map h of
        (h1, Inl err) \<Rightarrow> (h1, Inl err)
      | (h1, Inr exp_map') \<Rightarrow> st_pow_loop e a n exp_map' h1)"

definition st_Property_pow :: "'a env \<Rightarrow> nat \<Rightarrow> int \<Rightarrow> 'a store \<Rightarrow> 'a outcome" where
  "st_Property_pow e a pw h =
     (if a < length h then
        (if pw = 0 then st_alloc (IdentityOperator e (shape (h ! a))) h
         else st_pow_loop e a (nat (pw - 1)) a h)
      else (h, Inl NameError))"

definition st_ProjOp_pow :: "'a env \<Rightarrow> nat \<Rightarrow> int \<Rightarrow> 'a store \<Rightarrow> 'a outcome" where
  "st_ProjOp_pow e a pw h =
     (if a < length h then
        (if pw = 0 then st_alloc (IdentityOperator e (shape (h ! a))) h else (h, Inr a))
      else (h, Inl NameError))"

definition st_op_pow :: "'a env \<Rightarrow> nat \<Rightarrow> int \<Rightarrow> 'a store \<Rightarrow> 'a outcome" where
  "st_op_pow e a pw h =
     (if a < length h then
        (if cls (h ! a) = ProjOp \<or> cls (h ! a) = OrthProjOp then st_ProjOp_pow e a pw h
         else st_Property_pow e a pw h)
      else (h, Inl NameError))"

definition st_op_neg :: "'a env \<Rightarrow> nat \<Rightarrow> 'a store \<Rightarrow> 'a outcome" where
  "st_op_neg e a h = st_op_mul_scalar e a (Fin (- 1)) h"

definition st_op_sub :: "'a env \<Rightarrow> nat \<Rightarrow> nat \<Rightarrow> 'a store \<Rightarrow> 'a outcome" where
  "st_op_sub e a b h = st_then (st_op_neg e b h) (\<lambda>neg h1. st_op_add e a neg h1)"

definition st_op_truediv :: "'a env \<Rightarrow> nat \<Rightarrow> scalar \<Rightarrow> 'a store \<Rightarrow> 'a outcome" where
  "st_op_truediv e a scalar h =
     (case reciprocal scalar of
        Inl err \<Rightarrow> (h, Inl err)
      | Inr c \<Rightarrow> st_op_mul_scalar e a c h)"

definition st_argscale :: "'a env \<Rightarrow> nat \<Rightarrow> number \<Rightarrow> 'a store \<Rightarrow> 'a outcome" where
  "st_argscale e a c h =
     (if a < length h then
        st_then (st_alloc (HomothetyOp e c (snd (shape (h ! a)))) h) (\<lambda>hmap h1.
          st_op_mul e a hmap h1)
      else (h, Inl NameError))"

text \<open>\<^verbatim>\<open>argshift\<close>.\<close>

definition st_argshift :: "'a env \<Rightarrow> nat \<Rightarrow> 'a \<Rightarrow> 'a store \<Rightarrow> 'a outcome" where
  "st_argshift e a arr h =
     (if a < length h then
        (case dim_of e arr of
           None \<Rightarrow> (h, Inl IndexError)
         | Some n \<Rightarrow>
             if snd (shape (h ! a)) = None \<or> snd (shape (h ! a)) = Some n then
               (let out_shape = (fst (shape (h ! a)), Some n);
                    out_cls = (if is_LinFunc (cls (h ! a)) then DiffFunc
                               else if is_LinOp (cls (h ! a)) then DiffMap
                               else cls (h ! a));
                    ps = iter e (properties out_cls)
                in st_then (st_new out_cls out_shape h) (\<lambda>out_op h1.
                     st_then (st_for_each (argshift_body (h ! a) arr (last ps)) ps out_op h1)
                       (st_squeeze e)))
             else (h, Inl ValueError))
      else (h, Inl NameError))"

text \<open>
  What a combinator run in the store \<open>h\<close> with the outcome \<open>out\<close> has to do with the value \<open>v\<close>
  of the function on instances: the instances of \<open>h\<close> are still in the store, at their
  addresses and unchanged; it raises what \<open>v\<close> raises; and when \<open>v\<close> is an instance, it
  returns an address that was not in \<open>h\<close> and now holds that instance.
\<close>

definition creates :: "'a store \<Rightarrow> 'a outcome \<Rightarrow> error + 'a operator \<Rightarrow> bool" where
  "creates h out v =
     (take (length h) (fst out) = h
      \<and> (case v of
           Inl err \<Rightarrow> snd out = Inl err
         | Inr C \<Rightarrow>
             (case snd out of
                Inl err \<Rightarrow> False
              | Inr r \<Rightarrow> length h \<le> r \<and> r < length (fst out) \<and> fst out ! r = C)))"

section \<open>A concrete environment and concrete operators\<close>

text \<open>
  An environment to evaluate the definitions in: the seven base classes in their source
  order, sets iterated in the order of \<open>all_capabilities\<close>, and the complex numbers standing
  for the arrays of size 2 (the homothety by \<^verbatim>\<open>np.infty\<close>, which has no value on them, binds no
  method).
\<close>

definition all_capabilities :: "capability list" where
  "all_capabilities =
     [PApply, PLipschitz, PJacobian, PDiffLipschitz, PSingleValued, PGradient, PProx, PAdjoint]"

definition example_env :: "complex env" where
  "example_env =
     \<lparr> base_operators = [Map, DiffMap, Func_kind, DiffFunc, ProxFunc, LinOp, LinFunc],
       iter = (\<lambda>S. filter (\<lambda>p. p \<in> S) all_capabilities),
       eye = (\<lambda>n. 1),
       flatten = (\<lambda>x. x),
       dim_of = (\<lambda>x. Some 2),
       ExplicitLinFunc = (\<lambda>g. Operator LinFunc (1, Some 2) Infty (Some (Fin 0))
                              [(PGradient, Prim1 (\<lambda>x. Inr (VArr g)))]),
       HomothetyOp = (\<lambda>c d. Operator LinOp (case d of Some n \<Rightarrow> (n, Some n) | None \<Rightarrow> (1, None))
                              (case c of Fin r \<Rightarrow> Fin \<bar>r\<bar> | Infty \<Rightarrow> Infty) (Some (Fin 0))
                              (case c of
                                 Fin r \<Rightarrow> [(PApply, Prim1 (\<lambda>x. Inr (VArr (r *\<^sub>R x)))),
                                           (PAdjoint, Prim1 (\<lambda>x. Inr (VArr (r *\<^sub>R x))))]
                               | Infty \<Rightarrow> [])),
       IdentityOperator = (\<lambda>s. Operator LinOp s (Fin 1) (Some (Fin 0))
                              [(PApply, Prim1 (\<lambda>x. Inr (VArr x))),
                               (PAdjoint, Prim1 (\<lambda>x. Inr (VArr x)))]) \<rparr>"

text \<open>The linear operator \<open>x \<mapsto> 3x\<close> on arrays of size 2, and what \<^verbatim>\<open>specialize\<close> makes of it.\<close>

definition example_LinOp :: "complex operator" where
  "example_LinOp =
     Operator LinOp (2, Some 2) Infty (Some (Fin 0))
       [(PApply, Prim1 (\<lambda>x. Inr (VArr (3 *\<^sub>R x)))), (PAdjoint, Prim1 (\<lambda>x. Inr (VArr (3 *\<^sub>R x))))]"

definition example_specialized :: "complex operator" where
  "example_specialized =
     Operator SelfAdjointOp (2, Some 2) Infty (Some (Fin 0))
       [(PAdjoint, Prim1 (\<lambda>x. Inr (VArr (3 *\<^sub>R x)))),
        (PJacobian, ClassMethod example_LinOp PJacobian),
        (PApply, Prim1 (\<lambda>x. Inr (VArr (3 *\<^sub>R x))))]"


definition example_DiffMap1 :: "complex operator" where
  "example_DiffMap1 =
     Operator DiffMap (1, Some 2) Infty (Some Infty)
       [(PApply, Prim1 (\<lambda>x. Inr (VArr x))), (PJacobian, Prim1 (\<lambda>x. Inr (VOp example_LinOp)))]"

definition example_DiffFunc :: "complex operator" where
  "example_DiffFunc =
     Operator DiffFunc (1, Some 2) Infty None
       [(PApply, Prim1 (\<lambda>x. Inr (VArr x))), (PGradient, Prim1 (\<lambda>x. Inr (VArr 1)))]"

text \<open>
  A proximable functional, a linear functional and a unitary operator (the rotation by a
  quarter turn, whose adjoint is the opposite rotation) on arrays of size 2.
\<close>

definition example_ProxFunc :: "complex operator" where
  "example_ProxFunc =
     Operator ProxFunc (1, Some 2) Infty None
       [(PApply, Prim1 (\<lambda>x. Inr (VArr (cmod x *\<^sub>R 1)))),
        (PProx, Prim2 (\<lambda>x t. Inr (VArr ((1 / (1 + t)) *\<^sub>R x))))]"

definition example_LinFunc :: "complex operator" where
  "example_LinFunc =
     Operator LinFunc (1, Some 2) Infty (Some (Fin 0))
       [(PApply, Prim1 (\<lambda>x. Inr (VArr (Re x *\<^sub>R 1)))),
        (PAdjoint, Prim1 (\<lambda>y. Inr (VArr (Re y *\<^sub>R 1))))]"

definition example_UnitOp :: "complex operator" where
  "example_UnitOp =
     Operator UnitOp (2, Some 2) (Fin 1) (Some (Fin 0))
       [(PApply, Prim1 (\<lambda>x. Inr (VArr (\<i> * x)))),
        (PAdjoint, Prim1 (\<lambda>y. Inr (VArr (- \<i> * y))))]"

text \<open>Two Maps on arrays of size 2 with known Lipschitz estimates 1 and 2.\<close>

definition example_Map_a :: "complex operator" where
  "example_Map_a = Operator Map (2, Some 2) (Fin 1) None [(PApply, Prim1 (\<lambda>x. Inr (VArr x)))]"

definition example_Map_b :: "complex operator" where
  "example_Map_b =
     Operator Map (2, Some 2) (Fin 2) None [(PApply, Prim1 (\<lambda>x. Inr (VArr (2 *\<^sub>R x))))]"

text \<open>
  The rotation by a quarter turn as a plain LinOp, and its sum with \<open>example_LinOp\<close> as
  \<^verbatim>\<open>Property.__add__\<close> builds it in \<open>example_env\<close>.
\<close>

definition example_rotation :: "complex operator" where
  "example_rotation =
     Operator LinOp (2, Some 2) (Fin 1) (Some (Fin 0))
       [(PApply, Prim1 (\<lambda>x. Inr (VArr (\<i> * x)))),
        (PAdjoint, Prim1 (\<lambda>y. Inr (VArr (- \<i> * y))))]"

definition example_sum :: "complex operator" where
  "example_sum =
     Operator LinOp (2, Some 2) Infty (Some (Fin 0))
       [(PAdjoint, Composite example_rotation example_LinOp PAdjoint),
        (PApply, Composite example_rotation example_LinOp PAdjoint)]"

text \<open>A store that holds the rotation at address 0 and \<open>example_LinOp\<close> at address 1.\<close>

definition example_store :: "complex store" where
  "example_store = [example_rotation, example_LinOp]"

section \<open>Auxiliary facts\<close>

lemma set_all_capabilities: "p \<in> set all_capabilities"
  by (cases p) (simp_all add: all_capabilities_def)

lemma wf_example_env: "wf_env example_env"
  unfolding wf_env_def
proof (intro conjI allI)
  show "distinct (base_operators example_env)" by (simp add: example_env_def)
  show "set (base_operators example_env) = {Map, DiffMap, Func_kind, DiffFunc, ProxFunc, LinOp, LinFunc}"
    by (simp add: example_env_def)
  fix S
  have d: "distinct all_capabilities" by (simp add: all_capabilities_def)
  show "distinct (iter example_env S)" using d by (simp add: example_env_def)
  show "set (iter example_env S) = S"
    using set_all_capabilities by (auto simp: example_env_def)
qed

lemma iter_example: "iter example_env S = filter (\<lambda>p. p \<in> S) all_capabilities"
  by (simp add: example_env_def)

lemma call_ClassMethod:
  "call e (ClassMethod self p) args = class_method (call e) e self p args"
  by (subst call.simps) simp

lemma same_frame_refl: "same_frame a a"
  by (simp add: same_frame_def)

lemma same_frame_trans: "same_frame a b \<Longrightarrow> same_frame b c \<Longrightarrow> same_frame a c"
  unfolding same_frame_def by (elim conjE, intro conjI) (erule trans, assumption)+

lemma same_frame_setattr: "same_frame a (setattr a p m)"
  by (cases a) (simp add: same_frame_def)

lemma for_each_same_frame:
  assumes "\<And>p a. p \<in> set ps \<Longrightarrow> \<exists>b. body p a = Inr b \<and> same_frame a b"
  shows "\<exists>b. for_each body ps obj = Inr b \<and> same_frame obj b"
  using assms
proof (induction ps arbitrary: obj)
  case Nil
  show ?case using same_frame_refl[of obj] by simp
next
  case (Cons p ps)
  have "p \<in> set (p # ps)" by simp
  from Cons.prems[OF this, of obj] obtain b where b: "body p obj = Inr b" "same_frame obj b"
    by blast
  have "\<exists>c. for_each body ps b = Inr c \<and> same_frame b c"
  proof (rule Cons.IH)
    fix q a assume "q \<in> set ps"
    then have "q \<in> set (p # ps)" by simp
    then show "\<exists>b. body q a = Inr b \<and> same_frame a b" by (rule Cons.prems)
  qed
  then obtain c where c: "for_each body ps b = Inr c" "same_frame b c" by blast
  have "same_frame obj c" using b(2) c(2) by (rule same_frame_trans)
  with b(1) c(1) show ?case by simp
qed

lemma getattr_class:
  "p \<in> properties (cls self) \<Longrightarrow> \<exists>m. getattr self p = Inr m"
  by (simp add: getattr_def split: option.split)

lemma specialize_body_ok:
  assumes "p \<in> properties (cls self)"
  shows "\<exists>b. specialize_body self K p a = Inr b \<and> same_frame a b"
proof -
  from getattr_class[OF assms] obtain m where "getattr self p = Inr m" by blast
  then show ?thesis
    by (simp add: specialize_body_def has_single_valued_str_def same_frame_setattr)
qed

lemma new_operator_frame:
  "map_sum id frame (new_operator k s :: error + 'a operator)
     = (case init_shape k s of Inl err \<Rightarrow> Inl err | Inr s' \<Rightarrow> Inr (k, s'))"
  by (simp add: new_operator_def frame_def split: sum.split)

lemma specialize_frame:
  assumes "wf_env e"
  shows "map_sum id frame (specialize e self K) = specialize_kind (cls self) (shape self) K"
proof (cases "K = cls self \<or> properties K \<subset> properties (cls self)")
  case True
  then show ?thesis by (auto simp: specialize_def specialize_kind_def frame_def)
next
  case False
  show ?thesis
  proof (cases "new_operator K (shape self) :: error + 'a operator")
    case (Inl err)
    with False new_operator_frame[of K "shape self", where 'a='a] show ?thesis
      by (auto simp: specialize_def specialize_kind_def split: sum.splits)
  next
    case (Inr obj)
    have "\<exists>b. for_each (specialize_body self K) (iter e (properties (cls self))) obj = Inr b
              \<and> same_frame obj b"
    proof (rule for_each_same_frame)
      fix p a assume "p \<in> set (iter e (properties (cls self)))"
      with assms have "p \<in> properties (cls self)" by (simp add: wf_env_def)
      then show "\<exists>b. specialize_body self K p a = Inr b \<and> same_frame a b"
        by (rule specialize_body_ok)
    qed
    then obtain b where b: "for_each (specialize_body self K) (iter e (properties (cls self))) obj = Inr b"
      "same_frame obj b" by blast
    from b(2) have "frame b = frame obj" by (simp add: same_frame_def frame_def)
    with False Inr b(1) new_operator_frame[of K "shape self", where 'a='a] show ?thesis
      by (auto simp: specialize_def specialize_kind_def split: sum.splits)
  qed
qed

lemma squeeze_frame:
  assumes "wf_env e"
  shows "map_sum id frame (squeeze e self) = squeeze_kind (cls self) (shape self)"
  using specialize_frame[OF assms, of self "squeeze_out (cls self)"]
  by (simp add: squeeze_def squeeze_kind_def frame_def)

lemma no_scalar_properties: "PDiffLipschitz \<notin> properties k" "PLipschitz \<notin> properties k"
  by (cases k; simp)+

lemma add_body_ok:
  assumes "p \<noteq> PDiffLipschitz"
  shows "\<exists>b. add_body self other plast p a = Inr b \<and> same_frame a b"
  using assms by (simp add: add_body_def same_frame_setattr)

lemma mul_body_ok:
  assumes "p \<noteq> PDiffLipschitz" "p \<noteq> PLipschitz"
  shows "\<exists>b. mul_body self other p a = Inr b \<and> same_frame a b"
  using assms by (simp add: mul_body_def same_frame_setattr same_frame_refl)

lemma prune_subset: "prune Op S \<subseteq> S"
  by (auto simp: prune_def)

lemma add_shared_subset: "add_shared k1 k2 \<subseteq> properties k1"
  by (auto simp: add_shared_def)

lemma mul_shared_no_scalar:
  "PDiffLipschitz \<notin> mul_shared a b" "PLipschitz \<notin> mul_shared a b"
  using no_scalar_properties[of "cls a"] by (auto simp: mul_shared_def Let_def)

lemma squeeze_same_frame:
  assumes "wf_env e" "same_frame a b"
  shows "map_sum id frame (squeeze e b) = squeeze_kind (cls a) (shape a)"
  using squeeze_frame[OF assms(1), of b] assms(2) by (simp add: same_frame_def)

lemma Property_add_frame:
  assumes "wf_env e"
  shows "map_sum id frame (Property_add e self other)
           = add_kind e (cls self) (shape self) (cls other) (shape other)"
proof (cases "infer_sum_shape (shape self) (shape other)")
  case (Inl err)
  then show ?thesis by (simp add: Property_add_def add_kind_def)
next
  case (Inr s)
  define Op where "Op = resolve_kind e (add_shared (cls self) (cls other))"
  define ps where "ps = iter e (prune Op (add_shared (cls self) (cls other)))"
  show ?thesis
  proof (cases "new_operator Op s :: error + 'a operator")
    case (Inl err)
    with Inr new_operator_frame[of Op s, where 'a='a] show ?thesis
      by (auto simp: Property_add_def add_kind_def Let_def Op_def split: sum.splits)
  next
    case new: (Inr out_op)
    have "\<exists>b. for_each (add_body self other (last ps)) ps out_op = Inr b \<and> same_frame out_op b"
    proof (rule for_each_same_frame)
      fix p a assume "p \<in> set ps"
      with assms have "p \<in> prune Op (add_shared (cls self) (cls other))"
        by (simp add: ps_def wf_env_def)
      with prune_subset add_shared_subset have "p \<in> properties (cls self)" by blast
      with no_scalar_properties(1)[of "cls self"] have "p \<noteq> PDiffLipschitz" by auto
      then show "\<exists>b. add_body self other (last ps) p a = Inr b \<and> same_frame a b"
        by (rule add_body_ok)
    qed
    then obtain b where b: "for_each (add_body self other (last ps)) ps out_op = Inr b"
      "same_frame out_op b" by blast
    from new new_operator_frame[of Op s, where 'a='a]
    have fr: "init_shape Op s = Inr (shape out_op)" "cls out_op = Op"
      by (auto simp: frame_def split: sum.splits)
    have "Property_add e self other = squeeze e b"
      using Inr new b(1) by (simp add: Property_add_def Let_def Op_def ps_def)
    with squeeze_same_frame[OF assms b(2)] fr Inr show ?thesis
      by (simp add: add_kind_def Op_def)
  qed
qed

lemma Property_mul_frame:
  assumes "wf_env e"
  shows "map_sum id frame (Property_mul e self other) = mul_kind e self other"
proof (cases "infer_composition_shape (shape self) (shape other)")
  case (Inl err)
  then show ?thesis by (simp add: Property_mul_def mul_kind_def)
next
  case (Inr s)
  define Op where "Op = resolve_kind e (mul_shared self other)"
  define ps where "ps = iter e (prune Op (mul_shared self other))"
  show ?thesis
  proof (cases "new_operator Op s :: error + 'a operator")
    case (Inl err)
    with Inr new_operator_frame[of Op s, where 'a='a] show ?thesis
      by (auto simp: Property_mul_def mul_kind_def Let_def Op_def split: sum.splits)
  next
    case new: (Inr out_op)
    have "\<exists>b. for_each (mul_body self other) ps out_op = Inr b \<and> same_frame out_op b"
    proof (rule for_each_same_frame)
      fix p a assume "p \<in> set ps"
      with assms have "p \<in> prune Op (mul_shared self other)"
        by (simp add: ps_def wf_env_def)
      with prune_subset have "p \<in> mul_shared self other" by blast
      with mul_shared_no_scalar[of self other]
      have "p \<noteq> PDiffLipschitz" "p \<noteq> PLipschitz" by auto
      then show "\<exists>b. mul_body self other p a = Inr b \<and> same_frame a b"
        by (rule mul_body_ok)
    qed
    then obtain b where b: "for_each (mul_body self other) ps out_op = Inr b"
      "same_frame out_op b" by blast
    from new new_operator_frame[of Op s, where 'a='a]
    have fr: "init_shape Op s = Inr (shape out_op)" "cls out_op = Op"
      by (auto simp: frame_def split: sum.splits)
    have "Property_mul e self other = squeeze e b"
      using Inr new b(1) by (simp add: Property_mul_def Let_def Op_def ps_def)
    with squeeze_same_frame[OF assms b(2)] fr Inr show ?thesis
      by (simp add: mul_kind_def Op_def)
  qed
qed

lemma find_unique:
  assumes "x \<in> set xs" "P x" "\<forall>y\<in>set xs. P y \<longrightarrow> y = x"
  shows "find P xs = Some x"
  using assms
proof (induction xs)
  case Nil
  then show ?case by simp
next
  case (Cons a xs)
  show ?case
  proof (cases "P a")
    case True
    with Cons.prems(3) have "a = x" by simp
    with True show ?thesis by simp
  next
    case False
    with Cons.prems(1,2) have "x \<in> set xs" by auto
    moreover from Cons.prems(3) have "\<forall>y\<in>set xs. P y \<longrightarrow> y = x" by simp
    ultimately have "find P xs = Some x" using Cons.IH Cons.prems(2) by blast
    with False show ?thesis by simp
  qed
qed

lemma kind_of_properties: "k \<in> base_kinds \<Longrightarrow> kind_of (properties k) = k"
  by (cases k) (simp_all add: base_kinds_def kind_of_def)

lemma kind_of_base: "kind_of S \<in> base_kinds"
  by (simp add: kind_of_def base_kinds_def)

lemma resolve_kind_base:
  assumes "wf_env e" "k \<in> base_kinds"
  shows "resolve_kind e (properties k) = k"
proof -
  have s: "set (base_operators e) = base_kinds"
    using assms(1) by (simp add: wf_env_def base_kinds_def)
  have "find (\<lambda>Op. properties Op = properties k) (base_operators e) = Some k"
  proof (rule find_unique)
    show "k \<in> set (base_operators e)" using s assms(2) by simp
    show "properties k = properties k" by simp
    show "\<forall>y\<in>set (base_operators e). properties y = properties k \<longrightarrow> y = k"
    proof (intro ballI impI)
      fix y assume "y \<in> set (base_operators e)" and eq: "properties y = properties k"
      then have "y \<in> base_kinds" using s by simp
      then have "y = kind_of (properties y)" by (rule kind_of_properties[symmetric])
      also have "\<dots> = kind_of (properties k)" by (rule arg_cong[OF eq])
      also have "\<dots> = k" using assms(2) by (rule kind_of_properties)
      finally show "y = k" .
    qed
  qed
  then show ?thesis by (simp add: resolve_kind_def)
qed

lemma resolve_kind_kind_of:
  assumes "wf_env e" "S = properties (kind_of S)"
  shows "resolve_kind e S = kind_of S"
  using resolve_kind_base[OF assms(1) kind_of_base[of S]] assms(2) by simp

lemma add_shared_closed:
  assumes "k1 \<in> base_kinds" "k2 \<in> base_kinds"
  shows "add_shared k1 k2 = properties (kind_of (add_shared k1 k2))"
  using assms
  apply (cases k1; cases k2; simp add: base_kinds_def add_shared_def kind_of_def)
  apply auto
  done

lemma squeeze_guard:
  "properties (squeeze_out k) \<subset> properties k \<longleftrightarrow> k = DiffFunc \<or> k = ProxFunc"
  by (cases k) (auto simp: squeeze_out_def is_LinOp_def)

lemma squeeze_kind_simp:
  "squeeze_kind k s =
     (if fst s = 1 then
        (if squeeze_out k = k then Inr (k, s)
         else if k = DiffFunc \<or> k = ProxFunc then Inl ValueError
         else Inr (squeeze_out k, s))
      else Inr (k, s))"
proof -
  have "is_Func (squeeze_out k)" by (simp add: squeeze_out_def is_Func_def)
  then have "fst s = 1 \<Longrightarrow> init_shape (squeeze_out k) s = Inr s"
    by (simp add: init_shape_def)
  then show ?thesis
    using squeeze_guard[of k] by (auto simp: squeeze_kind_def specialize_kind_def)
qed

lemma kind_of_add_shared:
  assumes "k1 \<in> base_kinds" "k2 \<in> base_kinds"
  shows "kind_of (add_shared k1 k2) = add_entry k1 k2"
  using assms
  by (cases k1; cases k2;
      simp add: base_kinds_def add_shared_def kind_of_def add_entry_def add_table_def)

lemma add_kind_result:
  assumes "wf_env e" "k1 \<in> base_kinds" "k2 \<in> base_kinds"
      and "is_Func k1 \<longrightarrow> fst s1 = 1" "is_Func k2 \<longrightarrow> fst s2 = 1"
      and "infer_sum_shape s1 s2 = Inr s"
  shows "add_kind e k1 s1 k2 s2 =
           (if add_entry k1 k2 = DiffFunc then Inl ValueError
            else Inr (if fst s = 1 then single_valued_counterpart (add_entry k1 k2)
                      else add_entry k1 k2, s))"
proof -
  have r: "resolve_kind e (add_shared k1 k2) = add_entry k1 k2"
    using resolve_kind_kind_of[OF assms(1) add_shared_closed[OF assms(2,3)]]
      kind_of_add_shared[OF assms(2,3)] by simp
  have s: "fst s = max (fst s1) (fst s2)"
    using assms(6) by (auto simp: infer_sum_shape_def split: if_splits)
  have f: "is_Func (add_entry k1 k2) \<Longrightarrow> fst s = 1"
    using assms(2,3,4,5) s
    by (cases k1; cases k2; simp add: base_kinds_def add_entry_def add_table_def is_Func_def)
  have i: "init_shape (add_entry k1 k2) s = Inr s"
    using f assms(2,3)
    by (cases k1; cases k2;
        simp add: base_kinds_def add_entry_def add_table_def init_shape_def is_Func_def
          is_SquareOp_def)
  have b: "add_entry k1 k2 \<in> {Map, DiffMap, Func_kind, DiffFunc, LinOp, LinFunc}"
    using assms(2,3)
    by (cases k1; cases k2; simp add: base_kinds_def add_entry_def add_table_def)
  have "add_kind e k1 s1 k2 s2 = squeeze_kind (add_entry k1 k2) s"
    using r i assms(6) by (simp add: add_kind_def)
  also have "\<dots> = (if add_entry k1 k2 = DiffFunc then Inl ValueError
            else Inr (if fst s = 1 then single_valued_counterpart (add_entry k1 k2)
                      else add_entry k1 k2, s))"
    using b f
    by (cases "add_entry k1 k2")
       (auto simp: squeeze_kind_simp squeeze_out_def is_LinOp_def single_valued_counterpart_def
          is_Func_def)
  finally show ?thesis .
qed


lemma base_not_square: "k \<in> base_kinds \<Longrightarrow> \<not> is_SquareOp k"
  by (auto simp: base_kinds_def is_SquareOp_def)





lemma frame_Inl:
  assumes "map_sum id frame r = Inl err"
  shows "r = Inl err"
  using assms by (cases r) auto

lemma frame_InrD:
  assumes "map_sum id frame r = Inr (k, s)"
  obtains C where "r = Inr C" "cls C = k" "shape C = s"
  using assms by (cases r) (auto simp: frame_def)

lemma ProxFunc_add_LinFunc_raises:
  assumes "wf_env e" "cls f = ProxFunc" "fst (shape f) = 1" "cls l = LinFunc" "fst (shape l) = 1"
      and "infer_sum_shape (shape f) (shape l) = Inr s"
  shows "ProxFunc_add e f l = Inl ValueError"
proof -
  have s1: "fst s = 1"
    using assms(3,5,6) by (auto simp: infer_sum_shape_def split: if_splits)
  have "add_kind e ProxFunc (shape f) LinFunc (shape l) = Inr (Func_kind, s)"
    using add_kind_result[OF assms(1), of ProxFunc LinFunc "shape f" "shape l" s] assms(3,5,6) s1
    by (simp add: base_kinds_def add_entry_def single_valued_counterpart_def)
  with Property_add_frame[OF assms(1), of f l] assms(2,4)
  have "map_sum id frame (Property_add e f l) = Inr (Func_kind, s)" by simp
  then obtain g where g: "Property_add e f l = Inr g" "cls g = Func_kind" "shape g = s"
    by (rule frame_InrD)
  have "specialize_kind Func_kind s ProxFunc = Inr (ProxFunc, s)"
    using s1 by (auto simp: specialize_kind_def init_shape_def is_Func_def)
  with specialize_frame[OF assms(1), of g ProxFunc] g
  have "map_sum id frame (specialize e g ProxFunc) = Inr (ProxFunc, s)" by simp
  then obtain g' where g': "specialize e g ProxFunc = Inr g'" "cls g' = ProxFunc" "shape g' = s"
    by (rule frame_InrD)
  have "squeeze_kind ProxFunc s = Inl ValueError"
    using s1 by (simp add: squeeze_kind_simp squeeze_out_def is_LinOp_def)
  with squeeze_same_frame[OF assms(1) same_frame_setattr, of g' PProx "ProxAddLin f l"] g'
  have "map_sum id frame (squeeze e (setattr g' PProx (ProxAddLin f l))) = Inl ValueError"
    by simp
  then have "squeeze e (setattr g' PProx (ProxAddLin f l)) = Inl ValueError" by (rule frame_Inl)
  with g g' assms(4) show ?thesis by (simp add: ProxFunc_add_def is_LinFunc_def)
qed

lemma mul_shared_ProxFunc_UnitOp:
  assumes "cls f = ProxFunc" "cls U = UnitOp"
  shows "mul_shared f U = properties Map"
  using assms by (auto simp: mul_shared_def Let_def)

lemma ProxFunc_mul_UnitOp_class:
  assumes "wf_env e" "cls f = ProxFunc" "fst (shape f) = 1" "cls U = UnitOp"
      and "infer_composition_shape (shape f) (shape U) = Inr s"
  shows "\<exists>g. ProxFunc_mul e f U = Inr g \<and> cls g = Func_kind
             \<and> map_of (attrs g) PProx = Some (ProxMulUnit f U)"
proof -
  have s1: "fst s = 1"
    using assms(3,5) by (auto simp: infer_composition_shape_def split: if_splits)
  have r: "resolve_kind e (mul_shared f U) = Map"
    unfolding mul_shared_ProxFunc_UnitOp[OF assms(2,4)]
    by (rule resolve_kind_base[OF assms(1)]) (simp add: base_kinds_def)
  have "mul_kind e f U = Inr (Func_kind, s)"
    using s1 assms(5)
    by (simp add: mul_kind_def r init_shape_def is_Func_def is_SquareOp_def squeeze_kind_simp
        squeeze_out_def is_LinOp_def)
  with Property_mul_frame[OF assms(1), of f U]
  have "map_sum id frame (Property_mul e f U) = Inr (Func_kind, s)" by simp
  then obtain g where g: "Property_mul e f U = Inr g" "cls g = Func_kind" "shape g = s"
    by (rule frame_InrD)
  have "specialize_kind Func_kind s ProxFunc = Inr (ProxFunc, s)"
    using s1 by (auto simp: specialize_kind_def init_shape_def is_Func_def)
  with specialize_frame[OF assms(1), of g ProxFunc] g
  have "map_sum id frame (specialize e g ProxFunc) = Inr (ProxFunc, s)" by simp
  then obtain d where d: "specialize e g ProxFunc = Inr d" by (rule frame_InrD)
  define h where "h = setattr g PProx (ProxMulUnit f U)"
  have h: "cls h = Func_kind" "fst (shape h) = 1" "map_of (attrs h) PProx = Some (ProxMulUnit f U)"
    using g s1 by (cases g; simp add: h_def)+
  have "squeeze e h = Inr h"
    using h by (simp add: squeeze_def squeeze_out_def is_LinOp_def specialize_def)
  with g d h show ?thesis
    by (simp add: ProxFunc_mul_def is_UnitOp_def assms(4) h_def)
qed

lemma new_operator_default:
  "new_operator k s = Inr a \<Longrightarrow> default_scalars a"
  by (auto simp: new_operator_def default_scalars_def split: sum.splits)

lemma same_frame_default: "same_frame a b \<Longrightarrow> default_scalars a \<Longrightarrow> default_scalars b"
  by (simp add: same_frame_def default_scalars_def)

lemma specialize_default:
  assumes "wf_env e" "specialize e self K = Inr obj" "default_scalars self"
  shows "default_scalars obj"
proof (cases "K = cls self")
  case True
  with assms(2,3) show ?thesis by (simp add: specialize_def)
next
  case False
  with assms(2) obtain o1 where o1: "new_operator K (shape self) = Inr o1"
    and fe: "for_each (specialize_body self K) (iter e (properties (cls self))) o1 = Inr obj"
    by (auto simp: specialize_def split: if_splits sum.splits)
  have "\<exists>b. for_each (specialize_body self K) (iter e (properties (cls self))) o1 = Inr b
            \<and> same_frame o1 b"
  proof (rule for_each_same_frame)
    fix p a assume "p \<in> set (iter e (properties (cls self)))"
    with assms(1) have "p \<in> properties (cls self)" by (simp add: wf_env_def)
    then show "\<exists>b. specialize_body self K p a = Inr b \<and> same_frame a b"
      by (rule specialize_body_ok)
  qed
  with fe have "same_frame o1 obj" by auto
  then show ?thesis using new_operator_default[OF o1] by (rule same_frame_default)
qed

lemma squeeze_default:
  assumes "wf_env e" "squeeze e self = Inr obj" "default_scalars self"
  shows "default_scalars obj"
proof (cases "fst (shape self) = 1")
  case True
  with assms(2) have "specialize e self (squeeze_out (cls self)) = Inr obj"
    by (simp add: squeeze_def)
  from specialize_default[OF assms(1) this assms(3)] show ?thesis .
next
  case False
  with assms(2,3) show ?thesis by (simp add: squeeze_def)
qed

lemma Property_add_default:
  assumes "wf_env e" "Property_add e self other = Inr C"
  shows "default_scalars C"
proof -
  define Op where "Op = resolve_kind e (add_shared (cls self) (cls other))"
  define ps where "ps = iter e (prune Op (add_shared (cls self) (cls other)))"
  from assms(2) obtain s out_op out_op' where
    s: "infer_sum_shape (shape self) (shape other) = Inr s"
    and n: "new_operator Op s = Inr out_op"
    and f: "for_each (add_body self other (last ps)) ps out_op = Inr out_op'"
    and q: "squeeze e out_op' = Inr C"
    unfolding Property_add_def Let_def Op_def ps_def
    by (auto split: sum.splits)
  have "\<exists>b. for_each (add_body self other (last ps)) ps out_op = Inr b \<and> same_frame out_op b"
  proof (rule for_each_same_frame)
    fix p a assume "p \<in> set ps"
    with assms(1) have "p \<in> prune Op (add_shared (cls self) (cls other))"
      by (simp add: ps_def wf_env_def)
    with prune_subset add_shared_subset have "p \<in> properties (cls self)" by blast
    with no_scalar_properties(1)[of "cls self"] have "p \<noteq> PDiffLipschitz" by auto
    then show "\<exists>b. add_body self other (last ps) p a = Inr b \<and> same_frame a b"
      by (rule add_body_ok)
  qed
  with f have "same_frame out_op out_op'" by auto
  then have "default_scalars out_op'" using new_operator_default[OF n]
    by (rule same_frame_default)
  with squeeze_default[OF assms(1) q] show ?thesis by simp
qed

lemma argshift_single_valued_raises:
  assumes "wf_env e" "cls A = ProxFunc \<or> cls A = DiffFunc \<or> cls A = LinFunc"
      and "fst (shape A) = 1" "dim_of e v = Some n"
      and "snd (shape A) = None \<or> snd (shape A) = Some n"
  shows "argshift e A v = Inl ValueError"
proof -
  define K where "K = (if is_LinFunc (cls A) then DiffFunc
                        else if is_LinOp (cls A) then DiffMap else cls A)"
  define s where "s = (fst (shape A), Some n)"
  define ps where "ps = iter e (properties K)"
  have K: "K = ProxFunc \<or> K = DiffFunc"
    using assms(2) by (auto simp: K_def is_LinFunc_def is_LinOp_def)
  then have "init_shape K s = Inr s"
    using assms(3) by (auto simp: init_shape_def is_Func_def s_def)
  then obtain out_op :: "'a operator" where n: "new_operator K s = Inr out_op"
    "cls out_op = K" "shape out_op = s"
    by (simp add: new_operator_def)
  have "\<exists>b. for_each (argshift_body A v (last ps)) ps out_op = Inr b \<and> same_frame out_op b"
  proof (rule for_each_same_frame)
    fix p a assume "p \<in> set ps"
    with assms(1) have "p \<in> properties K" by (simp add: ps_def wf_env_def)
    with no_scalar_properties(1)[of K] have "p \<noteq> PDiffLipschitz" by auto
    then show "\<exists>b. argshift_body A v (last ps) p a = Inr b \<and> same_frame a b"
      by (simp add: argshift_body_def same_frame_setattr)
  qed
  then obtain b where b: "for_each (argshift_body A v (last ps)) ps out_op = Inr b"
    "same_frame out_op b" by blast
  have "squeeze_kind K s = Inl ValueError"
    using K assms(3) by (auto simp: squeeze_kind_simp squeeze_out_def is_LinOp_def s_def)
  with squeeze_same_frame[OF assms(1) b(2)] n have "squeeze e b = Inl ValueError"
    by (simp add: frame_Inl)
  with n(1) b(1) assms(4,5) show ?thesis
    by (simp add: argshift_def Let_def K_def s_def ps_def)
qed

lemma size_attr:
  "(p, m) \<in> set as \<Longrightarrow> size m < Suc (size_list (size_prod (\<lambda>x. 0) size) as)"
  by (induction as) auto

lemma size_map_of: "map_of (attrs C) p = Some m \<Longrightarrow> size m < size C"
  by (cases C) (auto dest!: map_of_SomeD size_attr)

lemma setattr_map_of:
  "map_of (attrs (setattr a p m)) q = (if q = p then Some m else map_of (attrs a) q)"
  by (cases a) simp

lemma set_diff_lipschitz_attrs: "attrs (set_diff_lipschitz a v) = attrs a"
  by (cases a) simp

lemma for_each_binds_gen:
  assumes step0: "\<And>a b. body key a = Inr b \<Longrightarrow> map_of (attrs b) key = Some m"
      and keep: "\<And>p a b. p \<noteq> key \<Longrightarrow> body p a = Inr b
                   \<Longrightarrow> map_of (attrs b) key = map_of (attrs a) key"
  shows "key \<in> set ps \<or> map_of (attrs obj) key = Some m \<Longrightarrow> for_each body ps obj = Inr r
         \<Longrightarrow> map_of (attrs r) key = Some m"
proof (induction ps arbitrary: obj)
  case Nil
  then show ?case by simp
next
  case (Cons p ps)
  from Cons.prems(2) obtain b where b: "body p obj = Inr b" "for_each body ps b = Inr r"
    by (auto split: sum.splits)
  show ?case
  proof (cases "p = key")
    case True
    with b(1) have "map_of (attrs b) key = Some m" by (simp add: step0)
    then have "key \<in> set ps \<or> map_of (attrs b) key = Some m" by simp
    from Cons.IH[OF this b(2)] show ?thesis .
  next
    case False
    from keep[OF False b(1)] have e: "map_of (attrs b) key = map_of (attrs obj) key" .
    from Cons.prems(1) False have "key \<in> set ps \<or> map_of (attrs obj) key = Some m" by auto
    with e have "key \<in> set ps \<or> map_of (attrs b) key = Some m" by simp
    from Cons.IH[OF this b(2)] show ?thesis .
  qed
qed

lemma specialize_keeps_apply:
  assumes "wf_env e" "map_of (attrs X) PApply = Some m" "specialize e X K = Inr Y"
  shows "map_of (attrs Y) PApply = Some m"
proof (cases "K = cls X")
  case True
  with assms(2,3) show ?thesis by (simp add: specialize_def)
next
  case False
  with assms(3) obtain o1 where
    fe: "for_each (specialize_body X K) (iter e (properties (cls X))) o1 = Inr Y"
    by (auto simp: specialize_def split: if_splits sum.splits)
  have g: "getattr X PApply = Inr m" using assms(2) by (simp add: getattr_def)
  have "PApply \<in> properties (cls X)" by (cases "cls X") simp_all
  with assms(1) have mem: "PApply \<in> set (iter e (properties (cls X)))" by (simp add: wf_env_def)
  show ?thesis
  proof (rule for_each_binds_gen[where body = "specialize_body X K" and key = PApply])
    show "PApply \<in> set (iter e (properties (cls X))) \<or> map_of (attrs o1) PApply = Some m"
      using mem by simp
    show "for_each (specialize_body X K) (iter e (properties (cls X))) o1 = Inr Y" by (rule fe)
  next
    fix a b assume "specialize_body X K PApply a = Inr b"
    with g show "map_of (attrs b) PApply = Some m"
      by (auto simp: specialize_body_def has_single_valued_str_def setattr_map_of)
  next
    fix p a b assume "p \<noteq> PApply" "specialize_body X K p a = Inr b"
    then show "map_of (attrs b) PApply = map_of (attrs a) PApply"
      by (auto simp: specialize_body_def has_single_valued_str_def setattr_map_of
          split: sum.splits)
  qed
qed

lemma squeeze_keeps_apply:
  assumes "wf_env e" "map_of (attrs X) PApply = Some m" "squeeze e X = Inr Y"
  shows "map_of (attrs Y) PApply = Some m"
proof (cases "fst (shape X) = 1")
  case True
  with assms(3) have "specialize e X (squeeze_out (cls X)) = Inr Y" by (simp add: squeeze_def)
  from specialize_keeps_apply[OF assms(1,2) this] show ?thesis .
next
  case False
  with assms(2,3) show ?thesis by (simp add: squeeze_def)
qed

lemma apply_shared: "PApply \<in> prune Op (add_shared k1 k2)"
  by (cases k1; cases k2; simp add: prune_def add_shared_def)

lemma apply_mul_shared: "PApply \<in> prune Op (mul_shared a b)"
  by (cases "cls a"; cases "cls b"; simp add: prune_def mul_shared_def Let_def)

lemma Property_add_apply:
  assumes "wf_env e" "Property_add e A B = Inr C"
  shows "\<exists>q. map_of (attrs C) PApply = Some (Composite A B q)"
proof -
  define Op where "Op = resolve_kind e (add_shared (cls A) (cls B))"
  define ps where "ps = iter e (prune Op (add_shared (cls A) (cls B)))"
  from assms(2) obtain out_op out_op' where
    f: "for_each (add_body A B (last ps)) ps out_op = Inr out_op'"
    and q: "squeeze e out_op' = Inr C"
    unfolding Property_add_def Let_def Op_def ps_def
    by (auto split: sum.splits)
  have mem: "PApply \<in> set ps" using assms(1) apply_shared by (simp add: ps_def wf_env_def)
  have "map_of (attrs out_op') PApply = Some (Composite A B (last ps))"
  proof (rule for_each_binds_gen[where body = "add_body A B (last ps)" and key = PApply])
    show "PApply \<in> set ps \<or> map_of (attrs out_op) PApply = Some (Composite A B (last ps))"
      using mem by simp
    show "for_each (add_body A B (last ps)) ps out_op = Inr out_op'" by (rule f)
  next
    fix a b assume "add_body A B (last ps) PApply a = Inr b"
    then show "map_of (attrs b) PApply = Some (Composite A B (last ps))"
      by (auto simp: add_body_def setattr_map_of)
  next
    fix p a b assume "p \<noteq> PApply" "add_body A B (last ps) p a = Inr b"
    then show "map_of (attrs b) PApply = map_of (attrs a) PApply"
      by (auto simp: add_body_def setattr_map_of set_diff_lipschitz_attrs
          split: if_splits option.splits)
  qed
  from squeeze_keeps_apply[OF assms(1) this q] show ?thesis by blast
qed

lemma Property_mul_apply:
  assumes "wf_env e" "Property_mul e A B = Inr C"
  shows "map_of (attrs C) PApply = Some (MulApply A B)"
proof -
  define Op where "Op = resolve_kind e (mul_shared A B)"
  define ps where "ps = iter e (prune Op (mul_shared A B))"
  from assms(2) obtain out_op out_op' where
    f: "for_each (mul_body A B) ps out_op = Inr out_op'"
    and q: "squeeze e out_op' = Inr C"
    unfolding Property_mul_def Let_def Op_def ps_def
    by (auto split: sum.splits)
  have mem: "PApply \<in> set ps" using assms(1) apply_mul_shared by (simp add: ps_def wf_env_def)
  have "map_of (attrs out_op') PApply = Some (MulApply A B)"
  proof (rule for_each_binds_gen[where body = "mul_body A B" and key = PApply])
    show "PApply \<in> set ps \<or> map_of (attrs out_op) PApply = Some (MulApply A B)"
      using mem by simp
    show "for_each (mul_body A B) ps out_op = Inr out_op'" by (rule f)
  next
    fix a b assume "mul_body A B PApply a = Inr b"
    then show "map_of (attrs b) PApply = Some (MulApply A B)"
      by (auto simp: mul_body_def setattr_map_of)
  next
    fix p a b assume "p \<noteq> PApply" "mul_body A B p a = Inr b"
    then show "map_of (attrs b) PApply = map_of (attrs a) PApply"
      by (cases a)
         (auto simp: mul_body_def setattr_map_of set_diff_lipschitz_attrs
          split: if_splits option.splits)
  qed
  from squeeze_keeps_apply[OF assms(1) this q] show ?thesis .
qed

lemma argshift_apply:
  assumes "wf_env e" "argshift e A v = Inr C"
  shows "\<exists>q. map_of (attrs C) PApply = Some (Shifted A v q)"
proof -
  define K where "K = (if is_LinFunc (cls A) then DiffFunc
                        else if is_LinOp (cls A) then DiffMap else cls A)"
  define ps where "ps = iter e (properties K)"
  from assms(2) obtain out_op out_op' where
    f: "for_each (argshift_body A v (last ps)) ps out_op = Inr out_op'"
    and q: "squeeze e out_op' = Inr C"
    unfolding argshift_def Let_def K_def ps_def
    by (auto split: sum.splits if_splits option.splits)
  have "PApply \<in> properties K" by (cases K) simp_all
  with assms(1) have mem: "PApply \<in> set ps" by (simp add: ps_def wf_env_def)
  have "map_of (attrs out_op') PApply = Some (Shifted A v (last ps))"
  proof (rule for_each_binds_gen[where body = "argshift_body A v (last ps)" and key = PApply])
    show "PApply \<in> set ps \<or> map_of (attrs out_op) PApply = Some (Shifted A v (last ps))"
      using mem by simp
    show "for_each (argshift_body A v (last ps)) ps out_op = Inr out_op'" by (rule f)
  next
    fix a b assume "argshift_body A v (last ps) PApply a = Inr b"
    then show "map_of (attrs b) PApply = Some (Shifted A v (last ps))"
      by (auto simp: argshift_body_def setattr_map_of)
  next
    fix p a b assume "p \<noteq> PApply" "argshift_body A v (last ps) p a = Inr b"
    then show "map_of (attrs b) PApply = map_of (attrs a) PApply"
      by (auto simp: argshift_body_def setattr_map_of set_diff_lipschitz_attrs
          split: if_splits option.splits)
  qed
  from squeeze_keeps_apply[OF assms(1) this q] show ?thesis by blast
qed

lemma call_Prim1: "call e (Prim1 f) [VArr x] = Some (f x)"
  by (subst call.simps) (simp add: one_arg_def as_arr_def)

lemma call_Composite:
  "call e (Composite self other plast) [x] =
     on_ok (getattr self plast) (\<lambda>ms.
     and_then (call e ms [x]) (\<lambda>v.
     on_ok (getattr other plast) (\<lambda>mo.
     and_then (call e mo [x]) (\<lambda>w. Some (val_add e v w)))))"
  by (subst call.simps) (simp add: one_arg_def)

lemma add_shared_LinOp: "add_shared LinOp LinOp = properties LinOp"
  by (auto simp: add_shared_def)

lemma sum_of_rotations:
  "Property_add example_env example_rotation example_LinOp = Inr example_sum"
proof -
  have r: "resolve_kind example_env (add_shared LinOp LinOp) = LinOp"
    unfolding add_shared_LinOp
    by (rule resolve_kind_base[OF wf_example_env]) (simp add: base_kinds_def)
  have p: "prune LinOp (add_shared LinOp LinOp) = {PApply, PAdjoint}"
    by (auto simp: prune_def add_shared_def)
  have i: "iter example_env {PApply, PAdjoint} = [PApply, PAdjoint]"
    by (simp add: iter_example all_capabilities_def)
  have c: "cls example_rotation = LinOp" "cls example_LinOp = LinOp"
    "shape example_rotation = (2, Some 2)" "shape example_LinOp = (2, Some 2)"
    by (simp_all add: example_rotation_def example_LinOp_def)
  show ?thesis
    unfolding Property_add_def c r p i Let_def example_sum_def
    by (simp add: infer_sum_shape_def new_operator_def init_shape_def is_Func_def
        is_SquareOp_def init_lipschitz_def init_diff_lipschitz_def is_LinOp_def add_body_def
        squeeze_def)
qed

lemma ProxFunc_add_apply:
  assumes "wf_env e" "ProxFunc_add e A B = Inr C"
  shows "\<exists>q. map_of (attrs C) PApply = Some (Composite A B q)"
proof -
  from assms(2) obtain f where f: "Property_add e A B = Inr f"
    by (auto simp: ProxFunc_add_def split: sum.splits)
  from Property_add_apply[OF assms(1) f] obtain q where
    q: "map_of (attrs f) PApply = Some (Composite A B q)" by blast
  show ?thesis
  proof (cases "is_LinFunc (cls B)")
    case True
    with assms(2) f obtain f' where f': "specialize e f ProxFunc = Inr f'"
      and s: "squeeze e (setattr f' PProx (ProxAddLin A B)) = Inr C"
      by (auto simp: ProxFunc_add_def split: sum.splits)
    from specialize_keeps_apply[OF assms(1) q f']
    have "map_of (attrs (setattr f' PProx (ProxAddLin A B))) PApply = Some (Composite A B q)"
      by (simp add: setattr_map_of)
    from squeeze_keeps_apply[OF assms(1) this s] show ?thesis by blast
  next
    case False
    with assms(2) f have "squeeze e f = Inr C" by (simp add: ProxFunc_add_def)
    from squeeze_keeps_apply[OF assms(1) q this] show ?thesis by blast
  qed
qed

lemma op_add_new:
  assumes "wf_env e" "op_add e A B = Inr C"
  shows "C \<noteq> A \<and> C \<noteq> B"
proof -
  from assms(2) have "ProxFunc_add e A B = Inr C \<or> ProxFunc_add e B A = Inr C
                      \<or> Property_add e A B = Inr C"
    by (auto simp: op_add_def LinFunc_add_def split: if_splits)
  then have "\<exists>q m. map_of (attrs C) PApply = Some m \<and> (m = Composite A B q \<or> m = Composite B A q)"
    using ProxFunc_add_apply[OF assms(1)] Property_add_apply[OF assms(1)] by blast
  then obtain q m where m: "map_of (attrs C) PApply = Some m"
    "m = Composite A B q \<or> m = Composite B A q" by blast
  from size_map_of[OF m(1)] m(2) show ?thesis by auto
qed

lemma op_mul_apply:
  assumes "wf_env e" "op_mul e A B = Inr C"
  shows "map_of (attrs C) PApply = Some (MulApply A B)"
proof (cases "cls A = ProxFunc")
  case False
  with assms(2) have "Property_mul e A B = Inr C" by (simp add: op_mul_def)
  from Property_mul_apply[OF assms(1) this] show ?thesis .
next
  case True
  with assms(2) obtain f where f: "Property_mul e A B = Inr f"
    and s: "squeeze e (setattr f PProx (ProxMulUnit A B)) = Inr C"
    by (auto simp: op_mul_def ProxFunc_mul_def split: sum.splits if_splits)
  from Property_mul_apply[OF assms(1) f]
  have "map_of (attrs (setattr f PProx (ProxMulUnit A B))) PApply = Some (MulApply A B)"
    by (simp add: setattr_map_of)
  from squeeze_keeps_apply[OF assms(1) this s] show ?thesis .
qed

lemma op_mul_new:
  assumes "wf_env e" "op_mul e A B = Inr C"
  shows "C \<noteq> A \<and> C \<noteq> B"
  using size_map_of[OF op_mul_apply[OF assms]] by auto

lemma op_mul_scalar_new:
  assumes "wf_env e" "op_mul_scalar e A c = Inr C"
  shows "C \<noteq> A"
proof -
  from assms(2) have "op_mul e (HomothetyOp e c (Some (fst (shape A)))) A = Inr C"
    by (auto simp: op_mul_scalar_def Property_mul_scalar_def split: if_splits sum.splits)
  from op_mul_new[OF assms(1) this] show ?thesis by simp
qed

lemma argshift_new:
  assumes "wf_env e" "argshift e A v = Inr C"
  shows "C \<noteq> A"
proof -
  from argshift_apply[OF assms] obtain q where
    "map_of (attrs C) PApply = Some (Shifted A v q)" by blast
  from size_map_of[OF this] show ?thesis by auto
qed

lemma pow_loop_last:
  "pow_loop e A (Suc k) X = Inr C \<Longrightarrow> \<exists>Y. op_mul e A Y = Inr C"
proof (induction k arbitrary: X)
  case 0
  then show ?case by (auto split: sum.splits)
next
  case (Suc k)
  from Suc.prems obtain m where "op_mul e A X = Inr m" "pow_loop e A (Suc k) m = Inr C"
    by (auto split: sum.splits)
  with Suc.IH show ?case by blast
qed

lemma for_each_add_all:
  assumes "PDiffLipschitz \<notin> set ps" "\<forall>x\<in>set (attrs obj). snd x = Composite A B q"
      and "for_each (add_body A B q) ps obj = Inr r"
  shows "\<forall>x\<in>set (attrs r). snd x = Composite A B q"
  using assms
proof (induction ps arbitrary: obj)
  case Nil
  then show ?case by simp
next
  case (Cons p ps)
  from Cons.prems(1) have p: "p \<noteq> PDiffLipschitz" "PDiffLipschitz \<notin> set ps" by auto
  then have b: "add_body A B q p obj = Inr (setattr obj p (Composite A B q))"
    by (simp add: add_body_def)
  with Cons.prems(3) have r: "for_each (add_body A B q) ps (setattr obj p (Composite A B q)) = Inr r"
    by simp
  have "\<forall>x\<in>set (attrs (setattr obj p (Composite A B q))). snd x = Composite A B q"
    using Cons.prems(2) by (cases obj) simp
  from Cons.IH[OF p(2) this r] show ?case .
qed

lemma squeeze_not_one:
  assumes "wf_env e" "squeeze e X = Inr C" "fst (shape C) \<noteq> 1"
  shows "C = X"
proof (cases "fst (shape X) = 1")
  case False
  with assms(2) show ?thesis by (simp add: squeeze_def)
next
  case True
  from squeeze_frame[OF assms(1), of X] assms(2)
  have "squeeze_kind (cls X) (shape X) = Inr (cls C, shape C)" by (simp add: frame_def)
  with True have "shape C = shape X"
    by (auto simp: squeeze_kind_simp split: if_splits)
  with True assms(3) show ?thesis by simp
qed

lemma Property_add_closures_agree:
  assumes "wf_env e" "Property_add e A B = Inr C" "fst (shape C) \<noteq> 1"
  shows "\<exists>q. \<forall>p m. map_of (attrs C) p = Some m \<longrightarrow> m = Composite A B q"
proof -
  define Op where "Op = resolve_kind e (add_shared (cls A) (cls B))"
  define ps where "ps = iter e (prune Op (add_shared (cls A) (cls B)))"
  from assms(2) obtain s out_op out_op' where
    n: "new_operator Op s = Inr out_op"
    and f: "for_each (add_body A B (last ps)) ps out_op = Inr out_op'"
    and q: "squeeze e out_op' = Inr C"
    unfolding Property_add_def Let_def Op_def ps_def
    by (auto split: sum.splits)
  from squeeze_not_one[OF assms(1) q assms(3)] have C: "C = out_op'" .
  have nd: "PDiffLipschitz \<notin> set ps"
  proof
    assume "PDiffLipschitz \<in> set ps"
    with assms(1) have "PDiffLipschitz \<in> prune Op (add_shared (cls A) (cls B))"
      by (simp add: ps_def wf_env_def)
    with prune_subset add_shared_subset have "PDiffLipschitz \<in> properties (cls A)" by blast
    with no_scalar_properties(1)[of "cls A"] show False by simp
  qed
  from n have "attrs out_op = []" by (auto simp: new_operator_def split: sum.splits)
  then have "\<forall>x\<in>set (attrs out_op). snd x = Composite A B (last ps)" by simp
  from for_each_add_all[OF nd this f] C
  have "\<forall>x\<in>set (attrs C). snd x = Composite A B (last ps)" by simp
  then have "\<forall>p m. map_of (attrs C) p = Some m \<longrightarrow> m = Composite A B (last ps)"
    by (auto dest!: map_of_SomeD)
  then show ?thesis by blast
qed

lemma Property_add_binds:
  assumes "wf_env e" "Property_add e A B = Inr C" "fst (shape C) \<noteq> 1"
      and "key \<in> prune (resolve_kind e (add_shared (cls A) (cls B))) (add_shared (cls A) (cls B))"
  shows "\<exists>m. map_of (attrs C) key = Some m"
proof -
  define Op where "Op = resolve_kind e (add_shared (cls A) (cls B))"
  define ps where "ps = iter e (prune Op (add_shared (cls A) (cls B)))"
  from assms(2) obtain out_op out_op' where
    f: "for_each (add_body A B (last ps)) ps out_op = Inr out_op'"
    and q: "squeeze e out_op' = Inr C"
    unfolding Property_add_def Let_def Op_def ps_def
    by (auto split: sum.splits)
  from squeeze_not_one[OF assms(1) q assms(3)] have C: "C = out_op'" .
  have mem: "key \<in> set ps" using assms(1,4) by (simp add: ps_def Op_def wf_env_def)
  have nd: "key \<noteq> PDiffLipschitz"
    using assms(4) prune_subset add_shared_subset no_scalar_properties(1)[of "cls A"] by blast
  have "map_of (attrs out_op') key = Some (Composite A B (last ps))"
  proof (rule for_each_binds_gen[where body = "add_body A B (last ps)" and key = key])
    show "key \<in> set ps \<or> map_of (attrs out_op) key = Some (Composite A B (last ps))"
      using mem by simp
    show "for_each (add_body A B (last ps)) ps out_op = Inr out_op'" by (rule f)
  next
    fix a b assume "add_body A B (last ps) key a = Inr b"
    then show "map_of (attrs b) key = Some (Composite A B (last ps))"
      using nd by (auto simp: add_body_def setattr_map_of)
  next
    fix p a b assume "p \<noteq> key" "add_body A B (last ps) p a = Inr b"
    then show "map_of (attrs b) key = map_of (attrs a) key"
      by (auto simp: add_body_def setattr_map_of set_diff_lipschitz_attrs
          split: if_splits option.splits)
  qed
  with C show ?thesis by simp
qed

lemma sum_of_LinOps_apply_is_adjoint:
  assumes "wf_env e" "cls A = LinOp" "cls B = LinOp" "Property_add e A B = Inr C"
      and "fst (shape C) \<noteq> 1"
  shows "invoke e C PApply args = invoke e C PAdjoint args"
proof -
  have r: "resolve_kind e (add_shared LinOp LinOp) = LinOp"
    unfolding add_shared_LinOp
    by (rule resolve_kind_base[OF assms(1)]) (simp add: base_kinds_def)
  have p: "prune LinOp (add_shared LinOp LinOp) = {PApply, PAdjoint}"
    by (auto simp: prune_def add_shared_def)
  from Property_add_closures_agree[OF assms(1,4,5)] obtain q where
    q: "\<And>p m. map_of (attrs C) p = Some m \<Longrightarrow> m = Composite A B q" by blast
  from Property_add_binds[OF assms(1,4,5), of PApply] assms(2,3) r p
  obtain m1 where m1: "map_of (attrs C) PApply = Some m1" by auto
  from Property_add_binds[OF assms(1,4,5), of PAdjoint] assms(2,3) r p
  obtain m2 where m2: "map_of (attrs C) PAdjoint = Some m2" by auto
  from q[OF m1] q[OF m2] m1 m2 show ?thesis
    by (simp add: invoke_def getattr_def)
qed

subsection \<open>Where the combinators behave as documented\<close>

text \<open>
  On operands of class \<^verbatim>\<open>Map\<close> that are not of codimension one, the sum applies both
  operands and adds the results, and a domain shift evaluates the operand at the shifted
  point, so that shifting by \<open>v\<close> and then by \<open>- v\<close> gives back the values of the operand
  (the arithmetic of the arrays being that of a real vector space, without rounding).
\<close>

lemma singleton_list: "distinct xs \<Longrightarrow> set xs = {a} \<Longrightarrow> xs = [a]"
proof (cases xs)
  case Nil
  assume "set xs = {a}"
  with Nil show ?thesis by simp
next
  case (Cons y ys)
  assume d: "distinct xs" and s: "set xs = {a}"
  from s Cons have y: "y = a" by auto
  have "ys = []"
  proof (cases ys)
    case Nil
    then show ?thesis .
  next
    case (Cons z zs)
    with s \<open>xs = y # ys\<close> have "z = a" by auto
    with d y Cons \<open>xs = y # ys\<close> show ?thesis by simp
  qed
  with y Cons show ?thesis by simp
qed

lemma iter_singleton: "wf_env e \<Longrightarrow> iter e {a} = [a]"
  by (rule singleton_list) (simp_all add: wf_env_def)

lemma call_Shifted:
  "call e (Shifted self arr plast) [VArr x] =
     on_ok (getattr self plast) (\<lambda>ms. call e ms [VArr (x + arr)])"
  by (subst call.simps) (simp add: one_arg_def as_arr_def)

lemma argshift_Map:
  assumes "wf_env e" "cls A = Map" "fst (shape A) \<noteq> 1" "dim_of e v = Some n"
      and "snd (shape A) = None \<or> snd (shape A) = Some n"
  shows "argshift e A v =
           Inr (Operator Map (fst (shape A), Some n) Infty None
                  [(PApply, Shifted A v PApply)])"
  using assms iter_singleton[OF assms(1), of PApply]
  by (auto simp: argshift_def Let_def is_LinFunc_def is_LinOp_def new_operator_def
      init_shape_def is_Func_def is_SquareOp_def init_lipschitz_def init_diff_lipschitz_def
      argshift_body_def squeeze_def)

lemma argshift_Map_apply:
  assumes "wf_env e" "cls A = Map" "fst (shape A) \<noteq> 1" "dim_of e v = Some n"
      and "snd (shape A) = None \<or> snd (shape A) = Some n"
      and "argshift e A v = Inr S"
  shows "invoke e S PApply [VArr x] = invoke e A PApply [VArr (x + v)]"
  using argshift_Map[OF assms(1-5)] assms(6)
  by (auto simp: invoke_def getattr_def call_Shifted on_ok_def)

lemma argshift_Map_inverse:
  fixes v :: "'a::real_vector"
  assumes "wf_env e" "cls A = Map" "fst (shape A) \<noteq> 1" "dim_of e v = Some n"
      and "snd (shape A) = None \<or> snd (shape A) = Some n"
      and "dim_of e (- v) = Some n"
      and "argshift e A v = Inr S" "argshift e S (- v) = Inr T"
  shows "invoke e T PApply [VArr x] = invoke e A PApply [VArr x]"
proof -
  from argshift_Map[OF assms(1-5)] assms(7)
  have S: "cls S = Map" "fst (shape S) \<noteq> 1" "snd (shape S) = Some n"
    using assms(3) by auto
  then have "snd (shape S) = None \<or> snd (shape S) = Some n" by simp
  from argshift_Map_apply[OF assms(1) S(1,2) assms(6) this assms(8)]
  have "invoke e T PApply [VArr x] = invoke e S PApply [VArr (x + - v)]" .
  also from argshift_Map_apply[OF assms(1-5,7)]
  have "\<dots> = invoke e A PApply [VArr (x + - v + v)]" .
  finally show ?thesis by simp
qed

lemma sum_of_Maps_apply:
  assumes "wf_env e" "cls A = Map" "cls B = Map" "Property_add e A B = Inr C"
      and "fst (shape C) \<noteq> 1"
  shows "invoke e C PApply [x] =
           and_then (invoke e A PApply [x]) (\<lambda>v.
           and_then (invoke e B PApply [x]) (\<lambda>w. Some (val_add e v w)))"
proof -
  have sh: "add_shared Map Map = properties Map" by (auto simp: add_shared_def)
  have r: "resolve_kind e (add_shared Map Map) = Map"
    unfolding sh by (rule resolve_kind_base[OF assms(1)]) (simp add: base_kinds_def)
  have p: "prune Map (add_shared Map Map) = {PApply}"
    by (auto simp: prune_def add_shared_def)
  define Op where "Op = resolve_kind e (add_shared (cls A) (cls B))"
  define ps where "ps = iter e (prune Op (add_shared (cls A) (cls B)))"
  have ps: "ps = [PApply]"
    unfolding ps_def Op_def assms(2,3) r p by (rule iter_singleton[OF assms(1)])
  from assms(4) obtain out_op out_op' where
    f: "for_each (add_body A B (last ps)) ps out_op = Inr out_op'"
    and q: "squeeze e out_op' = Inr C"
    unfolding Property_add_def Let_def Op_def ps_def
    by (auto split: sum.splits)
  from squeeze_not_one[OF assms(1) q assms(5)] have C: "C = out_op'" .
  from f ps have "out_op' = setattr out_op PApply (Composite A B PApply)"
    by (simp add: add_body_def)
  with C have g: "getattr C PApply = Inr (Composite A B PApply)"
    by (simp add: getattr_def setattr_map_of)
  show ?thesis
    unfolding invoke_def g
    by (cases "getattr A PApply"; cases "getattr B PApply";
        simp add: on_ok_def call_Composite and_then_def split: option.splits sum.splits)
qed

subsection \<open>The classes of sums and products\<close>













subsection \<open>The combinators in the store\<close>

text \<open>
  Each function on the store keeps the instances of the store it starts from and ends with
  the value, or the exception, of the function on instances, at an address that is new
  unless the function is \<^verbatim>\<open>specialize\<close> or \<^verbatim>\<open>squeeze\<close> returning \<^verbatim>\<open>self\<close>. The lemmas are
  stated for a store \<open>h\<close> that has grown from a store \<open>b\<close>, the one the combinator was called
  in.
\<close>

lemma base_length:
  assumes "take (length b) h = b"
  shows "length b \<le> length h"
proof -
  have "length (take (length b) h) = length b" using assms by simp
  then show ?thesis by simp
qed

lemma creates_InrE:
  assumes "creates b out (Inr C)"
  obtains h1 r where "out = (h1, Inr r)" "take (length b) h1 = b" "length b \<le> r"
    "r < length h1" "h1 ! r = C"
  using assms by (cases out; cases "snd out") (auto simp: creates_def)

lemma creates_raise: "take (length b) h = b \<Longrightarrow> creates b (h, Inl err) (Inl err)"
  by (simp add: creates_def)

lemma creates_then:
  assumes "creates b m v"
    and "\<And>h1 r C. v = Inr C \<Longrightarrow> take (length b) h1 = b \<Longrightarrow> length b \<le> r \<Longrightarrow> r < length h1
           \<Longrightarrow> h1 ! r = C \<Longrightarrow> creates b (k r h1) (kv C)"
  shows "creates b (st_then m k) (case v of Inl err \<Rightarrow> Inl err | Inr C \<Rightarrow> kv C)"
proof (cases v)
  case (Inl err)
  with assms(1) show ?thesis by (simp add: creates_def st_then_def)
next
  case (Inr C)
  with assms(1) have "creates b m (Inr C)" by simp
  then obtain h1 r where m: "m = (h1, Inr r)" and f: "take (length b) h1 = b" "length b \<le> r"
    "r < length h1" "h1 ! r = C"
    by (rule creates_InrE)
  from assms(2)[OF Inr f] show ?thesis by (simp add: st_then_def m Inr)
qed

lemma st_new_creates:
  assumes "take (length b) h = b"
  shows "creates b (st_new k s h) (new_operator k s)"
  using assms base_length[OF assms]
  by (cases "new_operator k s :: error + 'a operator") (simp_all add: st_new_def creates_def)

lemma st_alloc_creates:
  assumes "take (length b) h = b"
  shows "creates b (st_alloc obj h) (Inr obj)"
  using assms base_length[OF assms] by (simp add: st_alloc_def creates_def)

lemma st_assign_creates:
  assumes "take (length b) h = b" "length b \<le> r" "r < length h"
  shows "creates b (st_assign f r h) (f (h ! r))"
  using assms by (cases "f (h ! r)") (simp_all add: st_assign_def creates_def)

lemma st_for_each_creates:
  assumes "take (length b) h = b" "length b \<le> r" "r < length h"
  shows "creates b (st_for_each body ps r h) (for_each body ps (h ! r))"
  using assms
proof (induction ps arbitrary: h)
  case Nil
  then show ?case by (simp add: creates_def)
next
  case (Cons p ps)
  show ?case
  proof (cases "body p (h ! r)")
    case (Inl err)
    with Cons.prems show ?thesis by (simp add: st_assign_def creates_def)
  next
    case (Inr obj)
    have "creates b (st_for_each body ps r (h[r := obj])) (for_each body ps (h[r := obj] ! r))"
      by (rule Cons.IH) (use Cons.prems in simp_all)
    with Inr Cons.prems show ?thesis by (simp add: st_assign_def)
  qed
qed

lemma st_specialize_creates:
  assumes "take (length b) h = b" "length b \<le> a" "a < length h"
  shows "creates b (st_specialize e a K h) (specialize e (h ! a) K)"
proof (cases "K = cls (h ! a) \<or> properties K \<subset> properties (cls (h ! a))")
  case True
  with assms show ?thesis
    by (auto simp: st_specialize_def specialize_def creates_def)
next
  case False
  have "creates b (st_then (st_new K (shape (h ! a)) h)
                     (st_for_each (specialize_body (h ! a) K) (iter e (properties (cls (h ! a))))))
          (case new_operator K (shape (h ! a)) of
             Inl err \<Rightarrow> Inl err
           | Inr obj \<Rightarrow> for_each (specialize_body (h ! a) K)
                          (iter e (properties (cls (h ! a)))) obj)"
  proof (rule creates_then[OF st_new_creates[OF assms(1)]])
    fix h1 r and C :: "'a operator"
    assume "take (length b) h1 = b" "length b \<le> r" "r < length h1" "h1 ! r = C"
    with st_for_each_creates[of b h1 r]
    show "creates b (st_for_each (specialize_body (h ! a) K)
                       (iter e (properties (cls (h ! a)))) r h1)
            (for_each (specialize_body (h ! a) K) (iter e (properties (cls (h ! a)))) C)"
      by auto
  qed
  with False assms(3) show ?thesis by (simp add: st_specialize_def specialize_def)
qed

lemma st_squeeze_creates:
  assumes "take (length b) h = b" "length b \<le> a" "a < length h"
  shows "creates b (st_squeeze e a h) (squeeze e (h ! a))"
  using st_specialize_creates[OF assms] assms
  by (simp add: st_squeeze_def squeeze_def creates_def)

lemma st_build_creates:
  assumes "take (length b) h = b"
  shows "creates b
           (st_then (st_new Op s h) (\<lambda>out_op h1.
              st_then (st_for_each body ps out_op h1) (st_squeeze e)))
           (case new_operator Op s of
              Inl err \<Rightarrow> Inl err
            | Inr out_op \<Rightarrow>
                (case for_each body ps out_op of
                   Inl err \<Rightarrow> Inl err
                 | Inr out_op' \<Rightarrow> squeeze e out_op'))"
proof (rule creates_then[OF st_new_creates[OF assms]])
  fix h1 r and C :: "'a operator"
  assume f: "take (length b) h1 = b" "length b \<le> r" "r < length h1" "h1 ! r = C"
  have "creates b (st_then (st_for_each body ps r h1) (st_squeeze e))
          (case for_each body ps (h1 ! r) of Inl err \<Rightarrow> Inl err | Inr C' \<Rightarrow> squeeze e C')"
  proof (rule creates_then[OF st_for_each_creates[OF f(1,2,3)]])
    fix h2 r2 and C2 :: "'a operator"
    assume "take (length b) h2 = b" "length b \<le> r2" "r2 < length h2" "h2 ! r2 = C2"
    with st_squeeze_creates[of b h2 r2 e] show "creates b (st_squeeze e r2 h2) (squeeze e C2)"
      by auto
  qed
  with f(4) show "creates b (st_then (st_for_each body ps r h1) (st_squeeze e))
          (case for_each body ps C of Inl err \<Rightarrow> Inl err | Inr C' \<Rightarrow> squeeze e C')"
    by simp
qed

lemma st_Property_add_creates:
  assumes "take (length b) h = b" "a < length h" "c < length h"
  shows "creates b (st_Property_add e a c h) (Property_add e (h ! a) (h ! c))"
proof (cases "infer_sum_shape (shape (h ! a)) (shape (h ! c))")
  case (Inl err)
  with assms show ?thesis by (simp add: st_Property_add_def Property_add_def creates_def)
next
  case (Inr s)
  with assms(2,3) st_build_creates[OF assms(1)] show ?thesis
    by (simp add: st_Property_add_def Property_add_def Let_def)
qed

lemma st_Property_mul_creates:
  assumes "take (length b) h = b" "a < length h" "c < length h"
  shows "creates b (st_Property_mul e a c h) (Property_mul e (h ! a) (h ! c))"
proof (cases "infer_composition_shape (shape (h ! a)) (shape (h ! c))")
  case (Inl err)
  with assms show ?thesis by (simp add: st_Property_mul_def Property_mul_def creates_def)
next
  case (Inr s)
  with assms(2,3) st_build_creates[OF assms(1)] show ?thesis
    by (simp add: st_Property_mul_def Property_mul_def Let_def)
qed

lemma st_argshift_creates:
  assumes "take (length b) h = b" "a < length h"
  shows "creates b (st_argshift e a v h) (argshift e (h ! a) v)"
proof (cases "dim_of e v")
  case None
  with assms show ?thesis by (simp add: st_argshift_def argshift_def creates_def)
next
  case (Some n)
  show ?thesis
  proof (cases "snd (shape (h ! a)) = None \<or> snd (shape (h ! a)) = Some n")
    case True
    with Some assms(2) st_build_creates[OF assms(1)] show ?thesis
      by (simp add: st_argshift_def argshift_def Let_def)
  next
    case False
    then obtain y where "snd (shape (h ! a)) = Some y" "y \<noteq> n" by auto
    with Some assms show ?thesis by (simp add: st_argshift_def argshift_def creates_def)
  qed
qed


lemma st_ProxFunc_add_creates:
  assumes "take (length b) h = b" and a: "a < length h" and c: "c < length h"
  shows "creates b (st_ProxFunc_add e a c h) (ProxFunc_add e (h ! a) (h ! c))"
proof -
  define X where "X = ProxAddLin (h ! a) (h ! c)"
  have "creates b
          (st_then (st_Property_add e a c h) (\<lambda>f h1.
             if is_LinFunc (cls (h ! c)) then
               st_then (st_specialize e f ProxFunc h1) (\<lambda>f' h2.
                 st_then (st_assign (\<lambda>obj. Inr (setattr obj PProx X)) f' h2) (st_squeeze e))
             else st_squeeze e f h1))
          (case Property_add e (h ! a) (h ! c) of
             Inl err \<Rightarrow> Inl err
           | Inr f \<Rightarrow>
               if is_LinFunc (cls (h ! c)) then
                 (case specialize e f ProxFunc of
                    Inl err \<Rightarrow> Inl err
                  | Inr f' \<Rightarrow> squeeze e (setattr f' PProx X))
               else squeeze e f)"
  proof (rule creates_then[OF st_Property_add_creates[OF assms(1) a c]])
    fix h1 r and C :: "'a operator"
    assume f: "take (length b) h1 = b" "length b \<le> r" "r < length h1" "h1 ! r = C"
    have sq: "creates b (st_squeeze e r h1) (squeeze e C)"
      using st_squeeze_creates[OF f(1,2,3), of e] f(4) by simp
    have sp: "creates b
            (st_then (st_specialize e r ProxFunc h1) (\<lambda>f' h2.
               st_then (st_assign (\<lambda>obj. Inr (setattr obj PProx X)) f' h2) (st_squeeze e)))
            (case specialize e (h1 ! r) ProxFunc of
               Inl err \<Rightarrow> Inl err
             | Inr f' \<Rightarrow> squeeze e (setattr f' PProx X))"
    proof (rule creates_then[OF st_specialize_creates[OF f(1,2,3)]])
      fix h2 r2 and C2 :: "'a operator"
      assume g: "take (length b) h2 = b" "length b \<le> r2" "r2 < length h2" "h2 ! r2 = C2"
      have "creates b
              (st_then (st_assign (\<lambda>obj. Inr (setattr obj PProx X)) r2 h2) (st_squeeze e))
              (case Inr (setattr (h2 ! r2) PProx X) of
                 Inl err \<Rightarrow> Inl err | Inr C3 \<Rightarrow> squeeze e C3)"
      proof (rule creates_then[OF st_assign_creates[OF g(1,2,3)]])
        fix h3 r3 and C3 :: "'a operator"
        assume "take (length b) h3 = b" "length b \<le> r3" "r3 < length h3" "h3 ! r3 = C3"
        with st_squeeze_creates[of b h3 r3 e]
        show "creates b (st_squeeze e r3 h3) (squeeze e C3)" by auto
      qed
      with g(4) show "creates b
              (st_then (st_assign (\<lambda>obj. Inr (setattr obj PProx X)) r2 h2) (st_squeeze e))
              (squeeze e (setattr C2 PProx X))" by simp
    qed
    from sq sp f(4)
    show "creates b
            (if is_LinFunc (cls (h ! c)) then
               st_then (st_specialize e r ProxFunc h1) (\<lambda>f' h2.
                 st_then (st_assign (\<lambda>obj. Inr (setattr obj PProx X)) f' h2) (st_squeeze e))
             else st_squeeze e r h1)
            (if is_LinFunc (cls (h ! c)) then
               (case specialize e C ProxFunc of
                  Inl err \<Rightarrow> Inl err
                | Inr f' \<Rightarrow> squeeze e (setattr f' PProx X))
             else squeeze e C)" by simp
  qed
  then show ?thesis unfolding X_def st_ProxFunc_add_def ProxFunc_add_def .
qed

lemma st_op_add_creates:
  assumes "take (length b) h = b" and a: "a < length h" and c: "c < length h"
  shows "creates b (st_op_add e a c h) (op_add e (h ! a) (h ! c))"
  using st_ProxFunc_add_creates[OF assms] st_ProxFunc_add_creates[OF assms(1) c a]
    st_Property_add_creates[OF assms] a
  by (simp add: st_op_add_def op_add_def st_LinFunc_add_def LinFunc_add_def)


lemma st_then_simps:
  "st_then (h, Inr r) k = k r h" "st_then (h, Inl err) k = (h, Inl err)"
  by (simp_all add: st_then_def)

lemma creates_base:
  assumes "creates h out v" "take (length b) h = b"
  shows "creates b out v"
proof -
  note l = base_length[OF assms(2)]
  from assms(1) have t: "take (length h) (fst out) = h" by (simp add: creates_def)
  have "take (length b) (fst out) = take (length b) (take (length h) (fst out))"
    using l by (simp add: min_absorb1)
  also have "\<dots> = b" unfolding t by (rule assms(2))
  finally have "take (length b) (fst out) = b" .
  with assms(1) l show ?thesis
    by (cases v; cases "snd out") (auto simp: creates_def)
qed

lemma creates_then_keep:
  assumes "creates h1 m v" "take (length b) h1 = b"
    and "\<And>h2 r C. v = Inr C \<Longrightarrow> take (length h1) h2 = h1 \<Longrightarrow> length h1 \<le> r \<Longrightarrow> r < length h2
           \<Longrightarrow> h2 ! r = C \<Longrightarrow> creates b (k r h2) (kv C)"
  shows "creates b (st_then m k) (case v of Inl err \<Rightarrow> Inl err | Inr C \<Rightarrow> kv C)"
proof (cases v)
  case (Inl err)
  with creates_base[OF assms(1,2)] show ?thesis by (simp add: creates_def st_then_def)
next
  case (Inr C)
  with assms(1) have "creates h1 m (Inr C)" by simp
  then obtain h2 r where m: "m = (h2, Inr r)" and f: "take (length h1) h2 = h1" "length h1 \<le> r"
    "r < length h2" "h2 ! r = C"
    by (rule creates_InrE)
  from assms(3)[OF Inr f] show ?thesis by (simp add: st_then_def m Inr)
qed

lemma kept:
  assumes "take (length h1) h2 = h1" "x < length h1"
  shows "h2 ! x = h1 ! x" "x < length h2"
proof -
  have "take (length h1) h2 ! x = h2 ! x" using assms(2) by simp
  then show "h2 ! x = h1 ! x" unfolding assms(1) by simp
  from base_length[OF assms(1)] assms(2) show "x < length h2" by simp
qed

lemma kept_base:
  assumes "take (length h1) h2 = h1" "take (length b) h1 = b"
  shows "take (length b) h2 = b"
proof -
  have "take (length b) h2 = take (length b) (take (length h1) h2)"
    using base_length[OF assms(2)] by (simp add: min_absorb1)
  also have "\<dots> = b" unfolding assms(1) by (rule assms(2))
  finally show ?thesis .
qed

lemma st_specialize_new:
  assumes "a < length h" "K \<noteq> cls (h ! a)"
  shows "creates h (st_specialize e a K h) (specialize e (h ! a) K)"
proof (cases "properties K \<subset> properties (cls (h ! a))")
  case True
  with assms show ?thesis
    by (auto simp: st_specialize_def specialize_def creates_def)
next
  case False
  have t: "take (length h) h = h" by simp
  have "creates h (st_then (st_new K (shape (h ! a)) h)
                     (st_for_each (specialize_body (h ! a) K) (iter e (properties (cls (h ! a))))))
          (case new_operator K (shape (h ! a)) of
             Inl err \<Rightarrow> Inl err
           | Inr obj \<Rightarrow> for_each (specialize_body (h ! a) K)
                          (iter e (properties (cls (h ! a)))) obj)"
  proof (rule creates_then[OF st_new_creates[OF t]])
    fix h1 r and C :: "'a operator"
    assume "take (length h) h1 = h" "length h \<le> r" "r < length h1" "h1 ! r = C"
    with st_for_each_creates[of h h1 r]
    show "creates h (st_for_each (specialize_body (h ! a) K)
                       (iter e (properties (cls (h ! a)))) r h1)
            (for_each (specialize_body (h ! a) K) (iter e (properties (cls (h ! a)))) C)"
      by auto
  qed
  with False assms show ?thesis by (simp add: st_specialize_def specialize_def)
qed

lemma st_ProxFunc_mul_creates:
  assumes "take (length b) h = b" and a: "a < length h" and c: "c < length h"
  shows "creates b (st_ProxFunc_mul e a c h) (ProxFunc_mul e (h ! a) (h ! c))"
proof -
  define X where "X = ProxMulUnit (h ! a) (h ! c)"
  have "creates b
          (st_then (st_Property_mul e a c h) (\<lambda>f h1.
             if is_UnitOp (cls (h ! c)) then
               st_then (st_specialize e f ProxFunc h1) (\<lambda>discarded h2.
                 st_then (st_assign (\<lambda>obj. Inr (setattr obj PProx X)) f h2) (st_squeeze e))
             else (h1, Inl NameError)))
          (case Property_mul e (h ! a) (h ! c) of
             Inl err \<Rightarrow> Inl err
           | Inr f \<Rightarrow>
               if is_UnitOp (cls (h ! c)) then
                 (case specialize e f ProxFunc of
                    Inl err \<Rightarrow> Inl err
                  | Inr discarded \<Rightarrow> squeeze e (setattr f PProx X))
               else Inl NameError)"
  proof (rule creates_then[OF st_Property_mul_creates[OF assms(1) a c]])
    fix h1 r and C :: "'a operator"
    assume f: "take (length b) h1 = b" "length b \<le> r" "r < length h1" "h1 ! r = C"
    have bind: "creates b
                  (st_then (st_assign (\<lambda>obj. Inr (setattr obj PProx X)) r h2) (st_squeeze e))
                  (squeeze e (setattr C PProx X))"
      if k: "take (length b) h2 = b" "r < length h2" "h2 ! r = C" for h2
    proof -
      have "creates b
              (st_then (st_assign (\<lambda>obj. Inr (setattr obj PProx X)) r h2) (st_squeeze e))
              (case Inr (setattr (h2 ! r) PProx X) of
                 Inl err \<Rightarrow> Inl err | Inr C3 \<Rightarrow> squeeze e C3)"
      proof (rule creates_then[OF st_assign_creates[OF k(1) f(2) k(2)]])
        fix h3 r3 and C3 :: "'a operator"
        assume "take (length b) h3 = b" "length b \<le> r3" "r3 < length h3" "h3 ! r3 = C3"
        with st_squeeze_creates[of b h3 r3 e]
        show "creates b (st_squeeze e r3 h3) (squeeze e C3)" by auto
      qed
      with k(3) show ?thesis by simp
    qed
    have sp: "creates b
            (st_then (st_specialize e r ProxFunc h1) (\<lambda>discarded h2.
               st_then (st_assign (\<lambda>obj. Inr (setattr obj PProx X)) r h2) (st_squeeze e)))
            (case specialize e C ProxFunc of
               Inl err \<Rightarrow> Inl err
             | Inr discarded \<Rightarrow> squeeze e (setattr C PProx X))"
    proof (cases "cls C = ProxFunc")
      case True
      with f(3,4) have "st_specialize e r ProxFunc h1 = (h1, Inr r)"
        "specialize e C ProxFunc = Inr C"
        by (simp_all add: st_specialize_def specialize_def)
      with bind[OF f(1,3,4)] show ?thesis by (simp add: st_then_simps)
    next
      case False
      with f(4) have n: "ProxFunc \<noteq> cls (h1 ! r)" by auto
      have "creates b
              (st_then (st_specialize e r ProxFunc h1) (\<lambda>discarded h2.
                 st_then (st_assign (\<lambda>obj. Inr (setattr obj PProx X)) r h2) (st_squeeze e)))
              (case specialize e (h1 ! r) ProxFunc of
                 Inl err \<Rightarrow> Inl err
               | Inr discarded \<Rightarrow> squeeze e (setattr C PProx X))"
      proof (rule creates_then_keep[OF st_specialize_new[OF f(3) n] f(1)])
        fix h2 r2 and C2 :: "'a operator"
        assume g: "take (length h1) h2 = h1"
        from kept[OF g f(3)] f(4) kept_base[OF g f(1)]
        show "creates b
                (st_then (st_assign (\<lambda>obj. Inr (setattr obj PProx X)) r h2) (st_squeeze e))
                (squeeze e (setattr C PProx X))"
          by (intro bind) simp_all
      qed
      with f(4) show ?thesis by simp
    qed
    from sp f(1)
    show "creates b
            (if is_UnitOp (cls (h ! c)) then
               st_then (st_specialize e r ProxFunc h1) (\<lambda>discarded h2.
                 st_then (st_assign (\<lambda>obj. Inr (setattr obj PProx X)) r h2) (st_squeeze e))
             else (h1, Inl NameError))
            (if is_UnitOp (cls (h ! c)) then
               (case specialize e C ProxFunc of
                  Inl err \<Rightarrow> Inl err
                | Inr discarded \<Rightarrow> squeeze e (setattr C PProx X))
             else Inl NameError)" by (simp add: creates_def)
  qed
  then show ?thesis unfolding X_def st_ProxFunc_mul_def ProxFunc_mul_def .
qed

lemma st_op_mul_creates:
  assumes "take (length b) h = b" and a: "a < length h" and c: "c < length h"
  shows "creates b (st_op_mul e a c h) (op_mul e (h ! a) (h ! c))"
  using st_ProxFunc_mul_creates[OF assms] st_Property_mul_creates[OF assms] a
  by (simp add: st_op_mul_def op_mul_def)


lemma st_Property_mul_scalar_creates:
  assumes "take (length b) h = b" and a: "a < length h"
  shows "creates b (st_Property_mul_scalar e a c h) (Property_mul_scalar e (h ! a) c)"
proof -
  define H where "H = HomothetyOp e c (Some (fst (shape (h ! a))))"
  have t: "take (length h) h = h" by simp
  have "creates b (st_then (st_alloc H h) (\<lambda>hmap h1. st_op_mul e hmap a h1))
          (case Inr H of Inl err \<Rightarrow> Inl err | Inr C \<Rightarrow> op_mul e C (h ! a))"
  proof (rule creates_then_keep[OF st_alloc_creates[OF t] assms(1)])
    fix h2 r and C :: "'a operator"
    assume g: "take (length h) h2 = h" "length h \<le> r" "r < length h2" "h2 ! r = C"
    from st_op_mul_creates[OF kept_base[OF g(1) assms(1)] g(3) kept(2)[OF g(1) a], of e]
      kept(1)[OF g(1) a] g(4)
    show "creates b (st_op_mul e r a h2) (op_mul e C (h ! a))" by simp
  qed
  with a show ?thesis by (simp add: st_Property_mul_scalar_def Property_mul_scalar_def H_def)
qed

lemma st_op_mul_scalar_creates:
  assumes "take (length b) h = b" and a: "a < length h"
  shows "creates b (st_op_mul_scalar e a c h) (op_mul_scalar e (h ! a) c)"
proof (cases "cls (h ! a) = ProxFunc")
  case True
  have "creates b (st_then (st_Property_mul_scalar e a c h) (\<lambda>f h1. (h1, Inl NameError)))
          (case Property_mul_scalar e (h ! a) c of
             Inl err \<Rightarrow> Inl err | Inr f \<Rightarrow> Inl NameError)"
    by (rule creates_then[OF st_Property_mul_scalar_creates[OF assms]]) (rule creates_raise)
  with True a show ?thesis by (simp add: st_op_mul_scalar_def op_mul_scalar_def)
next
  case False
  with st_Property_mul_scalar_creates[OF assms] a show ?thesis
    by (simp add: st_op_mul_scalar_def op_mul_scalar_def)
qed

lemma st_op_neg_creates:
  assumes "take (length b) h = b" and a: "a < length h"
  shows "creates b (st_op_neg e a h) (op_neg e (h ! a))"
  using st_op_mul_scalar_creates[OF assms] by (simp add: st_op_neg_def op_neg_def)

lemma st_op_truediv_creates:
  assumes "take (length b) h = b" and a: "a < length h"
  shows "creates b (st_op_truediv e a d h) (op_truediv e (h ! a) d)"
  using st_op_mul_scalar_creates[OF assms] assms(1)
  by (cases "reciprocal d") (simp_all add: st_op_truediv_def op_truediv_def creates_def)

lemma st_argscale_creates:
  assumes "take (length b) h = b" and a: "a < length h"
  shows "creates b (st_argscale e a c h) (argscale e (h ! a) c)"
proof -
  define H where "H = HomothetyOp e c (snd (shape (h ! a)))"
  have t: "take (length h) h = h" by simp
  have "creates b (st_then (st_alloc H h) (\<lambda>hmap h1. st_op_mul e a hmap h1))
          (case Inr H of Inl err \<Rightarrow> Inl err | Inr C \<Rightarrow> op_mul e (h ! a) C)"
  proof (rule creates_then_keep[OF st_alloc_creates[OF t] assms(1)])
    fix h2 r and C :: "'a operator"
    assume g: "take (length h) h2 = h" "length h \<le> r" "r < length h2" "h2 ! r = C"
    from st_op_mul_creates[OF kept_base[OF g(1) assms(1)] kept(2)[OF g(1) a] g(3), of e]
      kept(1)[OF g(1) a] g(4)
    show "creates b (st_op_mul e a r h2) (op_mul e (h ! a) C)" by simp
  qed
  with a show ?thesis by (simp add: st_argscale_def argscale_def H_def)
qed

lemma st_op_sub_creates:
  assumes "a < length h" "c < length h"
  shows "creates h (st_op_sub e a c h) (op_sub e (h ! a) (h ! c))"
proof -
  have t: "take (length h) h = h" by simp
  have "creates h (st_then (st_op_neg e c h) (\<lambda>neg h1. st_op_add e a neg h1))
          (case op_neg e (h ! c) of Inl err \<Rightarrow> Inl err | Inr N \<Rightarrow> op_add e (h ! a) N)"
  proof (rule creates_then[OF st_op_neg_creates[OF t assms(2)]])
    fix h1 r and C :: "'a operator"
    assume g: "take (length h) h1 = h" "length h \<le> r" "r < length h1" "h1 ! r = C"
    from st_op_add_creates[OF g(1) kept(2)[OF g(1) assms(1)] g(3), of e]
      kept(1)[OF g(1) assms(1)] g(4)
    show "creates h (st_op_add e a r h1) (op_add e (h ! a) C)" by simp
  qed
  then show ?thesis by (simp add: st_op_sub_def op_sub_def)
qed

lemma st_case_then:
  "(case m of (h1, Inl err) \<Rightarrow> (h1, Inl err) | (h1, Inr r) \<Rightarrow> k r h1) = st_then m k"
  by (cases m; cases "snd m") (auto simp: st_then_def)

lemma st_then_assoc:
  "st_then (st_then m k1) k2 = st_then m (\<lambda>r h. st_then (k1 r h) k2)"
  by (cases m; cases "snd m") (auto simp: st_then_def split: sum.splits)

lemma st_then_return: "st_then m (\<lambda>r h. (h, Inr r)) = m"
  by (cases m; cases "snd m") (auto simp: st_then_def)

lemma st_pow_loop_Suc:
  "st_pow_loop e a (Suc n) x h = st_then (st_op_mul e a x h) (st_pow_loop e a n)"
  by (simp add: st_case_then)

lemma st_pow_loop_snoc:
  "st_pow_loop e a (Suc k) x h = st_then (st_pow_loop e a k x h) (st_op_mul e a)"
proof (induction k arbitrary: x h)
  case 0
  have "st_pow_loop e a 0 = (\<lambda>r h. (h, Inr r))" by (intro ext) simp
  then show ?case by (simp only: st_pow_loop_Suc st_then_return st_pow_loop.simps st_then_simps)
next
  case (Suc k)
  have "st_pow_loop e a (Suc k) = (\<lambda>r h1. st_then (st_pow_loop e a k r h1) (st_op_mul e a))"
    by (intro ext) (rule Suc.IH)
  then have "st_pow_loop e a (Suc (Suc k)) x h
               = st_then (st_op_mul e a x h)
                   (\<lambda>r h1. st_then (st_pow_loop e a k r h1) (st_op_mul e a))"
    by (simp only: st_pow_loop_Suc[of e a "Suc k"])
  also have "\<dots> = st_then (st_then (st_op_mul e a x h) (st_pow_loop e a k)) (st_op_mul e a)"
    by (simp only: st_then_assoc)
  also have "\<dots> = st_then (st_pow_loop e a (Suc k) x h) (st_op_mul e a)"
    by (simp only: st_pow_loop_Suc)
  finally show ?case .
qed

lemma pow_loop_snoc:
  "pow_loop e A (Suc k) X =
     (case pow_loop e A k X of Inl err \<Rightarrow> Inl err | Inr P \<Rightarrow> op_mul e A P)"
proof (induction k arbitrary: X)
  case 0
  show ?case by (cases "op_mul e A X") simp_all
next
  case (Suc k)
  show ?case
  proof (cases "op_mul e A X")
    case (Inl err)
    then show ?thesis by simp
  next
    case (Inr Y)
    have "pow_loop e A (Suc (Suc k)) X = pow_loop e A (Suc k) Y"
      using Inr by simp
    also have "\<dots> = (case pow_loop e A k Y of Inl err \<Rightarrow> Inl err | Inr P \<Rightarrow> op_mul e A P)"
      by (rule Suc.IH)
    also have "pow_loop e A k Y = pow_loop e A (Suc k) X" using Inr by simp
    finally show ?thesis .
  qed
qed

lemma st_pow_loop_creates:
  assumes "a < length b" "take (length b) h = b" "x < length h"
  shows "creates b (st_pow_loop e a (Suc k) x h) (pow_loop e (b ! a) (Suc k) (h ! x))"
  using assms(2,3)
proof (induction k arbitrary: x h)
  case 0
  have a: "a < length h" "h ! a = b ! a"
    using kept[of b h a] 0(1) assms(1) by simp_all
  have "creates b (st_then (st_op_mul e a x h) (st_pow_loop e a 0))
          (case op_mul e (b ! a) (h ! x) of
             Inl err \<Rightarrow> Inl err | Inr C \<Rightarrow> pow_loop e (b ! a) 0 C)"
  proof (rule creates_then[OF st_op_mul_creates[OF 0(1) a(1) 0(2), unfolded a(2)]])
    fix h1 r and C :: "'a operator"
    assume "take (length b) h1 = b" "length b \<le> r" "r < length h1" "h1 ! r = C"
    then show "creates b (st_pow_loop e a 0 r h1) (pow_loop e (b ! a) 0 C)"
      by (simp add: creates_def)
  qed
  then show ?case unfolding st_pow_loop_Suc pow_loop.simps(2) .
next
  case (Suc k)
  have a: "a < length h" "h ! a = b ! a"
    using kept[of b h a] Suc.prems(1) assms(1) by simp_all
  have "creates b (st_then (st_op_mul e a x h) (st_pow_loop e a (Suc k)))
          (case op_mul e (b ! a) (h ! x) of
             Inl err \<Rightarrow> Inl err | Inr C \<Rightarrow> pow_loop e (b ! a) (Suc k) C)"
  proof (rule creates_then[OF st_op_mul_creates[OF Suc.prems(1) a(1) Suc.prems(2), unfolded a(2)]])
    fix h1 r and C :: "'a operator"
    assume g: "take (length b) h1 = b" "length b \<le> r" "r < length h1" "h1 ! r = C"
    from Suc.IH[OF g(1,3)] g(4)
    show "creates b (st_pow_loop e a (Suc k) r h1) (pow_loop e (b ! a) (Suc k) C)" by simp
  qed
  then show ?case
    unfolding st_pow_loop_Suc[of e a "Suc k"] pow_loop.simps(2)[of e "b ! a" "Suc k"] .
qed

lemma st_op_pow_one: "a < length h \<Longrightarrow> st_op_pow e a 1 h = (h, Inr a)"
  by (simp add: st_op_pow_def st_Property_pow_def st_ProjOp_pow_def)

lemma st_op_pow_step:
  assumes "a < length h" "cls (h ! a) \<noteq> ProjOp" "cls (h ! a) \<noteq> OrthProjOp" "1 \<le> n"
  shows "st_op_pow e a (n + 1) h = st_then (st_op_pow e a n h) (st_op_mul e a)"
proof -
  from assms(4) obtain k where k: "nat n = Suc k" "nat (n - 1) = k"
    by (cases "nat n") auto
  have "st_op_pow e a (n + 1) h = st_pow_loop e a (Suc k) a h"
    using assms k by (simp add: st_op_pow_def st_Property_pow_def)
  also have "\<dots> = st_then (st_pow_loop e a k a h) (st_op_mul e a)"
    by (rule st_pow_loop_snoc)
  also have "st_pow_loop e a k a h = st_op_pow e a n h"
    using assms k by (simp add: st_op_pow_def st_Property_pow_def)
  finally show ?thesis .
qed

lemma op_pow_step:
  assumes "cls A \<noteq> ProjOp" "cls A \<noteq> OrthProjOp" "1 \<le> n"
  shows "op_pow e A (n + 1) =
           (case op_pow e A n of Inl err \<Rightarrow> Inl err | Inr P \<Rightarrow> op_mul e A P)"
proof -
  from assms(3) obtain k where k: "nat n = Suc k" "nat (n - 1) = k"
    by (cases "nat n") auto
  have "op_pow e A (n + 1) = pow_loop e A (Suc k) A"
    using assms k by (simp add: op_pow_def Property_pow_def)
  also have "\<dots> = (case pow_loop e A k A of Inl err \<Rightarrow> Inl err | Inr P \<Rightarrow> op_mul e A P)"
    by (rule pow_loop_snoc)
  also have "pow_loop e A k A = op_pow e A n"
    using assms k by (simp add: op_pow_def Property_pow_def)
  finally show ?thesis .
qed

lemma st_op_pow_creates:
  assumes "a < length h" "cls (h ! a) \<noteq> ProjOp" "cls (h ! a) \<noteq> OrthProjOp" "1 \<le> n"
  shows "creates h (st_op_pow e a (n + 1) h) (op_pow e (h ! a) (n + 1))"
proof -
  from assms(4) obtain k where k: "nat n = Suc k" by (cases "nat n") auto
  have "creates h (st_pow_loop e a (Suc k) a h) (pow_loop e (h ! a) (Suc k) (h ! a))"
    by (rule st_pow_loop_creates[OF assms(1) _ assms(1)]) simp
  with assms k show ?thesis
    by (simp add: st_op_pow_def st_Property_pow_def op_pow_def Property_pow_def)
qed

section \<open>The claims\<close>

text \<open>
  C10 (as amended). For every instance \<open>A\<close> of LinOp or of one of its subclasses whose
  \<^verbatim>\<open>jacobian\<close> is the method inherited from LinOp, that is, not rebound in the instance
  dictionary, \<^verbatim>\<open>A.jacobian(x)\<close> returns \<open>A\<close> itself, whatever the argument \<open>x\<close>.
\<close>

theorem LinOp_jacobian_returns_self:
  assumes "is_LinOp (cls A)" and "map_of (attrs A) PJacobian = None"
  shows "invoke e A PJacobian [x] = Some (Inr (VOp A))"
proof -
  from assms(1) have "PJacobian \<in> properties (cls A)"
    by (cases "cls A") (simp_all add: is_LinOp_def)
  with assms(2) have "getattr A PJacobian = Inr (ClassMethod A PJacobian)"
    by (simp add: getattr_def)
  then show ?thesis
    using assms(1) by (simp add: invoke_def on_ok_def call_ClassMethod class_method_def)
qed

theorem LinOp_jacobian_returns_self_witness:
  "is_LinOp (cls example_LinOp) \<and> map_of (attrs example_LinOp) PJacobian = None
   \<and> invoke example_env example_LinOp PJacobian [VArr 1] = Some (Inr (VOp example_LinOp))"
  using LinOp_jacobian_returns_self[of example_LinOp example_env "VArr 1"]
  by (simp add: example_LinOp_def is_LinOp_def)

text \<open>
  C10 as stated fails on an instance that \<^verbatim>\<open>specialize\<close> built: \<^verbatim>\<open>specialize\<close> copies the
  bound method \<^verbatim>\<open>self.jacobian\<close> of its source into the new instance, so the Jacobian of
  \<^verbatim>\<open>example_LinOp.specialize(cast_to=SelfAdjointOp)\<close>, itself a LinOp, is the source
  \<open>example_LinOp\<close> and not the instance asked.
\<close>

theorem specialized_jacobian_counterexample:
  "specialize example_env example_LinOp SelfAdjointOp = Inr example_specialized
   \<and> is_LinOp (cls example_specialized)
   \<and> invoke example_env example_specialized PJacobian [VArr 1] = Some (Inr (VOp example_LinOp))
   \<and> example_LinOp \<noteq> example_specialized"
proof -
  have "specialize example_env example_LinOp SelfAdjointOp = Inr example_specialized"
    by (simp add: specialize_def example_LinOp_def example_specialized_def new_operator_def
        init_shape_def is_Func_def is_SquareOp_def init_lipschitz_def init_diff_lipschitz_def
        is_LinOp_def iter_example all_capabilities_def specialize_body_def
        has_single_valued_str_def getattr_def)
  moreover have "invoke example_env example_specialized PJacobian [VArr 1]
                 = Some (Inr (VOp example_LinOp))"
    by (simp add: example_specialized_def invoke_def getattr_def on_ok_def call_ClassMethod
        class_method_def is_LinOp_def example_LinOp_def)
  moreover have "example_LinOp \<noteq> example_specialized"
    by (simp add: example_LinOp_def example_specialized_def)
  ultimately show ?thesis by (simp add: example_specialized_def is_LinOp_def)
qed




text \<open>
  C5 at a failing input. DiffFunc inherits \<^verbatim>\<open>Map.squeeze\<close>, which asks for a cast to Func;
  the capability set of Func is a proper subset of that of DiffFunc, so \<^verbatim>\<open>specialize\<close>
  raises \<^verbatim>\<open>ValueError\<close>: \<^verbatim>\<open>squeeze\<close> does not return on a DiffFunc.
\<close>

theorem squeeze_DiffFunc_raises:
  "squeeze example_env example_DiffFunc = Inl ValueError"
proof -
  have "squeeze_kind DiffFunc (1, Some 2) = Inl ValueError"
    by (simp add: squeeze_kind_simp squeeze_out_def is_LinOp_def)
  with squeeze_frame[OF wf_example_env, of example_DiffFunc]
  have "map_sum id frame (squeeze example_env example_DiffFunc) = Inl ValueError"
    by (simp add: example_DiffFunc_def)
  then show ?thesis by (rule frame_Inl)
qed

text \<open>
  C6 (as amended). For a target \<open>K\<close> among the seven base kinds, \<^verbatim>\<open>specialize(A, K)\<close> raises
  \<^verbatim>\<open>ValueError\<close> exactly when \<open>K\<close> is not the class of \<open>A\<close> and either the capability set
  of \<open>K\<close> is a proper subset of that of \<open>A\<close>, or \<open>K\<close> is single-valued and the codomain
  size of \<open>A\<close> exceeds 1 (the constructor of \<open>K\<close> refuses the shape). It raises nothing
  else; when it returns, the result is of class \<open>K\<close>, and it is \<open>A\<close> itself when \<open>K\<close> is
  the class of \<open>A\<close>.
\<close>

theorem specialize_guard:
  assumes "wf_env e" "K \<in> base_kinds"
  shows "(specialize e A K = Inl ValueError \<longleftrightarrow>
            K \<noteq> cls A \<and> (properties K \<subset> properties (cls A) \<or> (is_Func K \<and> 1 < fst (shape A))))
       \<and> (\<forall>err. specialize e A K = Inl err \<longrightarrow> err = ValueError)
       \<and> (\<forall>B. specialize e A K = Inr B \<longrightarrow> cls B = K)
       \<and> (K = cls A \<longrightarrow> specialize e A K = Inr A)"
proof -
  note fr = specialize_frame[OF assms(1), of A K]
  have nsq: "\<not> is_SquareOp K" using assms(2) by (rule base_not_square)
  have k: "specialize_kind (cls A) (shape A) K =
             (if K = cls A then Inr (K, shape A)
              else if properties K \<subset> properties (cls A) \<or> (is_Func K \<and> 1 < fst (shape A))
              then Inl ValueError else Inr (K, shape A))"
    using nsq by (auto simp: specialize_kind_def init_shape_def)
  show ?thesis
  proof (cases "specialize e A K")
    case (Inl err)
    with fr k show ?thesis by (auto split: if_splits)
  next
    case (Inr B)
    with fr k show ?thesis by (auto simp: frame_def specialize_def split: if_splits)
  qed
qed

theorem specialize_guard_witness:
  "wf_env example_env \<and> Map \<in> base_kinds
   \<and> properties Map \<subset> properties (cls example_LinOp)
   \<and> specialize example_env example_LinOp Map = Inl ValueError"
proof -
  have b: "Map \<in> base_kinds" by (simp add: base_kinds_def)
  have p: "properties Map \<subset> properties (cls example_LinOp)"
    by (auto simp: example_LinOp_def)
  have c: "Map \<noteq> cls example_LinOp" by (simp add: example_LinOp_def)
  from specialize_guard[OF wf_example_env b, of example_LinOp] p c
  show ?thesis using wf_example_env b by blast
qed

text \<open>
  C6 as stated fails: the capability set of DiffMap is not contained in that of Func, and
  \<^verbatim>\<open>specialize\<close> of a DiffMap of codomain size 1 to Func returns a Func.
\<close>

theorem specialize_incomparable_counterexample:
  "\<not> properties (cls example_DiffMap1) \<subseteq> properties Func_kind
   \<and> map_sum id cls (specialize example_env example_DiffMap1 Func_kind) = Inr Func_kind"
proof -
  have "specialize_kind DiffMap (1, Some 2) Func_kind = Inr (Func_kind, (1, Some 2))"
    by (auto simp: specialize_kind_def init_shape_def is_Func_def)
  with specialize_frame[OF wf_example_env, of example_DiffMap1 Func_kind]
  have "map_sum id frame (specialize example_env example_DiffMap1 Func_kind)
          = Inr (Func_kind, (1, Some 2))"
    by (simp add: example_DiffMap1_def)
  then have "map_sum id cls (specialize example_env example_DiffMap1 Func_kind) = Inr Func_kind"
    by (cases "specialize example_env example_DiffMap1 Func_kind") (auto simp: frame_def)
  then show ?thesis by (simp add: example_DiffMap1_def)
qed

text \<open>
  C2 at a failing input. \<^verbatim>\<open>ProxFunc.__add__\<close> specializes the sum to ProxFunc, binds its
  \<^verbatim>\<open>prox\<close>, and ends in \<^verbatim>\<open>f.squeeze()\<close>; \<^verbatim>\<open>squeeze\<close> on a ProxFunc is Map's, which raises
  \<^verbatim>\<open>ValueError\<close>. The sum of a ProxFunc and a LinFunc is never returned.
\<close>

theorem ProxFunc_plus_LinFunc_raises:
  "op_add example_env example_ProxFunc example_LinFunc = Inl ValueError"
proof -
  have "ProxFunc_add example_env example_ProxFunc example_LinFunc = Inl ValueError"
    by (rule ProxFunc_add_LinFunc_raises[OF wf_example_env, where s = "(1, Some 2)"])
       (simp_all add: example_ProxFunc_def example_LinFunc_def infer_sum_shape_def)
  then show ?thesis by (simp add: op_add_def example_ProxFunc_def)
qed

text \<open>
  C3 at a failing input. The loop of \<^verbatim>\<open>Property.__add__\<close> runs over capability names shared
  by the two classes, and "_lipschitz" and "_diff_lipschitz" are names of no class: the
  estimates of the sum stay what the constructor set. Two Maps with estimates 1 and 2 have a
  sum with estimate \<^verbatim>\<open>np.infty\<close>, not 3.
\<close>

theorem sum_lipschitz_not_added:
  "map_sum id attr_lipschitz (Property_add example_env example_Map_a example_Map_b) = Inr Infty
   \<and> num_add (attr_lipschitz example_Map_a) (attr_lipschitz example_Map_b) = Fin 3"
proof -
  have b: "Map \<in> base_kinds" by (simp add: base_kinds_def)
  have s: "infer_sum_shape (2, Some 2) (2, Some 2) = Inr (2, Some 2)"
    by (simp add: infer_sum_shape_def)
  have "add_kind example_env Map (2, Some 2) Map (2, Some 2) = Inr (Map, (2, Some 2))"
    using add_kind_result[OF wf_example_env b b _ _ s]
    by (simp add: is_Func_def add_entry_def add_table_def)
  with Property_add_frame[OF wf_example_env, of example_Map_a example_Map_b]
  have "map_sum id frame (Property_add example_env example_Map_a example_Map_b)
          = Inr (Map, (2, Some 2))"
    by (simp add: example_Map_a_def example_Map_b_def)
  then obtain C where C: "Property_add example_env example_Map_a example_Map_b = Inr C"
    "cls C = Map" by (rule frame_InrD)
  from Property_add_default[OF wf_example_env C(1)] C(2)
  have "attr_lipschitz C = Infty" by (simp add: default_scalars_def init_lipschitz_def)
  with C(1) show ?thesis by (simp add: example_Map_a_def example_Map_b_def)
qed

text \<open>
  C7 at a failing input. \<^verbatim>\<open>ProxFunc.__mul__\<close> calls \<^verbatim>\<open>f.specialize(cast_to=ProxFunc)\<close> and
  drops the result, so the product of a ProxFunc with a UnitOp is the Func that
  \<^verbatim>\<open>Property.__mul__\<close> returned, with a \<^verbatim>\<open>prox\<close> bound on that instance.
\<close>

theorem ProxFunc_times_UnitOp_is_Func:
  "map_sum id cls (op_mul example_env example_ProxFunc example_UnitOp) = Inr Func_kind"
proof -
  have "\<exists>g. ProxFunc_mul example_env example_ProxFunc example_UnitOp = Inr g \<and> cls g = Func_kind
           \<and> map_of (attrs g) PProx = Some (ProxMulUnit example_ProxFunc example_UnitOp)"
    by (rule ProxFunc_mul_UnitOp_class[OF wf_example_env, where s = "(1, Some 2)"])
       (simp_all add: example_ProxFunc_def example_UnitOp_def infer_composition_shape_def)
  then show ?thesis by (auto simp: op_mul_def example_ProxFunc_def)
qed

text \<open>
  C8 at a failing input. \<^verbatim>\<open>argshift\<close> ends in \<^verbatim>\<open>out_op.squeeze()\<close>, which raises
  \<^verbatim>\<open>ValueError\<close> on a ProxFunc (and on a DiffFunc, hence also for a DiffFunc or LinFunc
  operand): the shifted operator is never returned, already for the shift by zero.
\<close>

theorem argshift_ProxFunc_raises:
  "argshift example_env example_ProxFunc 0 = Inl ValueError"
  by (rule argshift_single_valued_raises[OF wf_example_env, where n = 2])
     (simp_all add: example_ProxFunc_def example_env_def)

text \<open>
  C4 at a failing input. \<^verbatim>\<open>composite_method\<close> reads the loop variable \<^verbatim>\<open>prop\<close> when it is
  called, so every capability bound by \<^verbatim>\<open>__add__\<close> evaluates the capability iterated last
  (\<open>sum_of_LinOps_apply_is_adjoint\<close>: in any iteration order the \<^verbatim>\<open>apply\<close> and the
  \<^verbatim>\<open>adjoint\<close> of a sum of two LinOps are the same function). In \<open>example_env\<close> that is
  \<^verbatim>\<open>adjoint\<close>: the sum of the rotation and of \<open>3x\<close> applied to 1 gives \<open>3 - \<i>\<close>, the sum of
  the adjoints, while the operands' \<^verbatim>\<open>apply\<close> give \<open>\<i>\<close> and 3, whose sum is \<open>3 + \<i>\<close>.
\<close>

theorem sum_apply_calls_adjoint:
  "Property_add example_env example_rotation example_LinOp = Inr example_sum
   \<and> invoke example_env example_rotation PApply [VArr 1] = Some (Inr (VArr (Complex 0 1)))
   \<and> invoke example_env example_LinOp PApply [VArr 1] = Some (Inr (VArr (Complex 3 0)))
   \<and> val_add example_env (VArr (Complex 0 1)) (VArr (Complex 3 0)) = Inr (VArr (Complex 3 1))
   \<and> invoke example_env example_sum PApply [VArr 1] = Some (Inr (VArr (Complex 3 (- 1))))"
proof -
  have a: "invoke example_env example_rotation PApply [VArr 1] = Some (Inr (VArr (Complex 0 1)))"
    by (simp add: invoke_def getattr_def on_ok_def example_rotation_def call_Prim1
        complex_eq_iff)
  have b: "invoke example_env example_LinOp PApply [VArr 1] = Some (Inr (VArr (Complex 3 0)))"
    by (simp add: invoke_def getattr_def on_ok_def example_LinOp_def call_Prim1
        complex_eq_iff)
  have ga: "getattr example_rotation PAdjoint = Inr (Prim1 (\<lambda>y. Inr (VArr (- \<i> * y))))"
    by (simp add: getattr_def example_rotation_def)
  have gb: "getattr example_LinOp PAdjoint = Inr (Prim1 (\<lambda>x. Inr (VArr (3 *\<^sub>R x))))"
    by (simp add: getattr_def example_LinOp_def)
  have gs: "getattr example_sum PApply = Inr (Composite example_rotation example_LinOp PAdjoint)"
    by (simp add: getattr_def example_sum_def)
  have c: "invoke example_env example_sum PApply [VArr 1] = Some (Inr (VArr (Complex 3 (- 1))))"
    unfolding invoke_def gs
    by (simp add: on_ok_def call_Composite ga gb call_Prim1 and_then_def complex_eq_iff)
  have d: "val_add example_env (VArr (Complex 0 1)) (VArr (Complex 3 0))
             = Inr (VArr (Complex 3 1))"
    by (simp add: complex_eq_iff)
  from sum_of_rotations a b c d show ?thesis by simp
qed

text \<open>
  C9 (as amended). With the instances held in a store, each of \<^verbatim>\<open>a + b\<close>, \<^verbatim>\<open>a * b\<close>,
  \<^verbatim>\<open>a * c\<close> for a number \<open>c\<close>, \<^verbatim>\<open>-a\<close>, \<^verbatim>\<open>a - b\<close>, \<^verbatim>\<open>a / d\<close>, \<^verbatim>\<open>a.argscale(c)\<close> and
  \<^verbatim>\<open>a.argshift(v)\<close> leaves every instance that was in the store, its operands among them,
  at its address and unchanged in class, shape, Lipschitz estimates and bound methods, whether
  it returns or raises; it raises what the function on instances raises, and when that
  function gives an instance it returns an address that was not in the store and now holds
  that instance. \<^verbatim>\<open>a ** 1\<close> returns the address of \<open>a\<close>, no new instance. For a class that
  does not override \<^verbatim>\<open>__pow__\<close> and for \<open>n \<ge> 1\<close>, \<^verbatim>\<open>a ** (n + 1)\<close> is \<^verbatim>\<open>a.__mul__\<close> applied to the
  result of \<^verbatim>\<open>a ** n\<close>, in the store this one leaves, so that it takes \<open>n\<close> applications of
  \<^verbatim>\<open>__mul__\<close> starting from \<open>a\<close>, and its result is again a new instance; for a ProjOp or an
  OrthProjOp \<^verbatim>\<open>a ** n\<close> is \<open>a\<close> itself for every \<open>n \<noteq> 0\<close>. On instances as values: whenever
  they return, \<^verbatim>\<open>+\<close>, \<^verbatim>\<open>*\<close> (by an operator or a number), unary \<^verbatim>\<open>-\<close>, \<^verbatim>\<open>/\<close>, \<^verbatim>\<open>argscale\<close> and
  \<^verbatim>\<open>argshift\<close> give an instance other than their operands, \<^verbatim>\<open>A ** 1\<close> is \<open>A\<close>, \<^verbatim>\<open>A ** 2\<close> is
  \<^verbatim>\<open>A * A\<close>, and \<^verbatim>\<open>A ** n\<close> for \<open>n \<ge> 2\<close> is an instance other than \<open>A\<close>.
\<close>

theorem combinators_return_new_instances:
  assumes "wf_env e" "a < length h" "b < length h"
  shows "creates h (st_op_add e a b h) (op_add e (h ! a) (h ! b))
       \<and> creates h (st_op_mul e a b h) (op_mul e (h ! a) (h ! b))
       \<and> creates h (st_op_mul_scalar e a c h) (op_mul_scalar e (h ! a) c)
       \<and> creates h (st_op_neg e a h) (op_neg e (h ! a))
       \<and> creates h (st_op_sub e a b h) (op_sub e (h ! a) (h ! b))
       \<and> creates h (st_op_truediv e a d h) (op_truediv e (h ! a) d)
       \<and> creates h (st_argscale e a c h) (argscale e (h ! a) c)
       \<and> creates h (st_argshift e a v h) (argshift e (h ! a) v)
       \<and> st_op_pow e a 1 h = (h, Inr a)
       \<and> (cls (h ! a) \<noteq> ProjOp \<and> cls (h ! a) \<noteq> OrthProjOp \<and> 1 \<le> n \<longrightarrow>
            st_op_pow e a (n + 1) h = st_then (st_op_pow e a n h) (st_op_mul e a)
          \<and> creates h (st_op_pow e a (n + 1) h) (op_pow e (h ! a) (n + 1)))
       \<and> ((cls (h ! a) = ProjOp \<or> cls (h ! a) = OrthProjOp) \<and> n \<noteq> 0 \<longrightarrow>
            st_op_pow e a n h = (h, Inr a))
       \<and> (op_add e A B = Inr C \<longrightarrow> C \<noteq> A \<and> C \<noteq> B)
       \<and> (op_mul e A B = Inr C \<longrightarrow> C \<noteq> A \<and> C \<noteq> B)
       \<and> (op_mul_scalar e A c = Inr C \<longrightarrow> C \<noteq> A)
       \<and> (op_neg e A = Inr C \<longrightarrow> C \<noteq> A)
       \<and> (op_truediv e A d = Inr C \<longrightarrow> C \<noteq> A)
       \<and> (argscale e A c = Inr C \<longrightarrow> C \<noteq> A)
       \<and> (argshift e A v = Inr C \<longrightarrow> C \<noteq> A)
       \<and> op_pow e A 1 = Inr A
       \<and> (cls A \<noteq> ProjOp \<and> cls A \<noteq> OrthProjOp \<longrightarrow> op_pow e A 2 = op_mul e A A)
       \<and> (cls A \<noteq> ProjOp \<and> cls A \<noteq> OrthProjOp \<and> 1 \<le> n \<longrightarrow>
            op_pow e A (n + 1) =
              (case op_pow e A n of Inl err \<Rightarrow> Inl err | Inr P \<Rightarrow> op_mul e A P))
       \<and> (cls A \<noteq> ProjOp \<and> cls A \<noteq> OrthProjOp \<and> 2 \<le> n \<and> op_pow e A n = Inr C
            \<longrightarrow> C \<noteq> A)
       \<and> ((cls A = ProjOp \<or> cls A = OrthProjOp) \<and> n \<noteq> 0 \<longrightarrow> op_pow e A n = Inr A)"
proof (intro conjI impI)
  have t: "take (length h) h = h" by simp
  show "creates h (st_op_add e a b h) (op_add e (h ! a) (h ! b))"
    by (rule st_op_add_creates[OF t assms(2,3)])
  show "creates h (st_op_mul e a b h) (op_mul e (h ! a) (h ! b))"
    by (rule st_op_mul_creates[OF t assms(2,3)])
  show "creates h (st_op_mul_scalar e a c h) (op_mul_scalar e (h ! a) c)"
    by (rule st_op_mul_scalar_creates[OF t assms(2)])
  show "creates h (st_op_neg e a h) (op_neg e (h ! a))"
    by (rule st_op_neg_creates[OF t assms(2)])
  show "creates h (st_op_sub e a b h) (op_sub e (h ! a) (h ! b))"
    by (rule st_op_sub_creates[OF assms(2,3)])
  show "creates h (st_op_truediv e a d h) (op_truediv e (h ! a) d)"
    by (rule st_op_truediv_creates[OF t assms(2)])
  show "creates h (st_argscale e a c h) (argscale e (h ! a) c)"
    by (rule st_argscale_creates[OF t assms(2)])
  show "creates h (st_argshift e a v h) (argshift e (h ! a) v)"
    by (rule st_argshift_creates[OF t assms(2)])
  show "st_op_pow e a 1 h = (h, Inr a)"
    by (rule st_op_pow_one[OF assms(2)])
  show "op_pow e A 1 = Inr A"
    by (simp add: op_pow_def Property_pow_def ProjOp_pow_def)
next
  assume p: "cls (h ! a) \<noteq> ProjOp \<and> cls (h ! a) \<noteq> OrthProjOp \<and> 1 \<le> n"
  then show "st_op_pow e a (n + 1) h = st_then (st_op_pow e a n h) (st_op_mul e a)"
    by (intro st_op_pow_step[OF assms(2)]) simp_all
  from p show "creates h (st_op_pow e a (n + 1) h) (op_pow e (h ! a) (n + 1))"
    by (intro st_op_pow_creates[OF assms(2)]) simp_all
next
  assume "(cls (h ! a) = ProjOp \<or> cls (h ! a) = OrthProjOp) \<and> n \<noteq> 0"
  with assms(2) show "st_op_pow e a n h = (h, Inr a)"
    by (auto simp: st_op_pow_def st_ProjOp_pow_def)
next
  assume "(cls A = ProjOp \<or> cls A = OrthProjOp) \<and> n \<noteq> 0"
  then show "op_pow e A n = Inr A"
    by (auto simp: op_pow_def ProjOp_pow_def)
next
  assume "cls A \<noteq> ProjOp \<and> cls A \<noteq> OrthProjOp"
  then show "op_pow e A 2 = op_mul e A A"
    by (auto simp: op_pow_def Property_pow_def split: sum.splits)
next
  assume "cls A \<noteq> ProjOp \<and> cls A \<noteq> OrthProjOp \<and> 1 \<le> n"
  then show "op_pow e A (n + 1) =
               (case op_pow e A n of Inl err \<Rightarrow> Inl err | Inr P \<Rightarrow> op_mul e A P)"
    by (intro op_pow_step) simp_all
next
  assume a: "cls A \<noteq> ProjOp \<and> cls A \<noteq> OrthProjOp \<and> 2 \<le> n \<and> op_pow e A n = Inr C"
  then obtain k where k: "nat (n - 1) = Suc k" by (cases "nat (n - 1)") auto
  from a have "pow_loop e A (nat (n - 1)) A = Inr C"
    by (auto simp: op_pow_def Property_pow_def)
  with k pow_loop_last obtain Y where "op_mul e A Y = Inr C" by metis
  from op_mul_new[OF assms(1) this] show "C \<noteq> A" by simp
next
  assume "op_add e A B = Inr C"
  from op_add_new[OF assms(1) this] show "C \<noteq> A" "C \<noteq> B" by simp_all
next
  assume "op_mul e A B = Inr C"
  from op_mul_new[OF assms(1) this] show "C \<noteq> A" "C \<noteq> B" by simp_all
next
  assume "op_mul_scalar e A c = Inr C"
  from op_mul_scalar_new[OF assms(1) this] show "C \<noteq> A" .
next
  assume "op_neg e A = Inr C"
  then have "op_mul_scalar e A (Fin (- 1)) = Inr C" by (simp add: op_neg_def)
  from op_mul_scalar_new[OF assms(1) this] show "C \<noteq> A" .
next
  assume "op_truediv e A d = Inr C"
  then obtain c' where "op_mul_scalar e A c' = Inr C"
    by (auto simp: op_truediv_def split: sum.splits)
  from op_mul_scalar_new[OF assms(1) this] show "C \<noteq> A" .
next
  assume "argscale e A c = Inr C"
  then have "op_mul e A (HomothetyOp e c (snd (shape A))) = Inr C" by (simp add: argscale_def)
  from op_mul_new[OF assms(1) this] show "C \<noteq> A" by simp
next
  assume "argshift e A v = Inr C"
  from argshift_new[OF assms(1) this] show "C \<noteq> A" .
qed

theorem combinators_return_new_instances_witness:
  "wf_env example_env \<and> 0 < length example_store \<and> 1 < length example_store
   \<and> op_add example_env (example_store ! 0) (example_store ! 1) = Inr example_sum
   \<and> creates example_store (st_op_add example_env 0 1 example_store) (Inr example_sum)
   \<and> example_sum \<noteq> example_rotation \<and> example_sum \<noteq> example_LinOp
   \<and> cls (example_store ! 1) \<noteq> ProjOp \<and> cls (example_store ! 1) \<noteq> OrthProjOp
   \<and> st_op_pow example_env 1 1 example_store = (example_store, Inr 1)
   \<and> st_op_pow example_env 1 (1 + 1) example_store
       = st_then (st_op_pow example_env 1 1 example_store) (st_op_mul example_env 1)
   \<and> creates example_store (st_op_pow example_env 1 (1 + 1) example_store)
        (op_pow example_env (example_store ! 1) (1 + 1))"
proof -
  have l: "0 < length example_store" "1 < length example_store"
    by (simp_all add: example_store_def)
  have n: "example_store ! 0 = example_rotation" "example_store ! 1 = example_LinOp"
    by (simp_all add: example_store_def)
  have s: "op_add example_env (example_store ! 0) (example_store ! 1) = Inr example_sum"
    unfolding n using sum_of_rotations by (simp add: op_add_def example_rotation_def)
  have s': "op_add example_env example_rotation example_LinOp = Inr example_sum"
    using s unfolding n .
  have c: "cls (example_store ! 1) \<noteq> ProjOp \<and> cls (example_store ! 1) \<noteq> OrthProjOp
           \<and> (1::int) \<le> 1"
    unfolding n by (simp add: example_LinOp_def)
  note t = combinators_return_new_instances[OF wf_example_env l(1) l(2),
      where A = example_rotation and B = example_LinOp and C = example_sum]
  from t have "creates example_store (st_op_add example_env 0 1 example_store)
                 (op_add example_env (example_store ! 0) (example_store ! 1))"
    by (rule conjunct1)
  then have p1: "creates example_store (st_op_add example_env 0 1 example_store)
                   (Inr example_sum)"
    unfolding s .
  from t have "op_add example_env example_rotation example_LinOp = Inr example_sum
                 \<longrightarrow> example_sum \<noteq> example_rotation \<and> example_sum \<noteq> example_LinOp"
    by blast
  with s' have p2: "example_sum \<noteq> example_rotation \<and> example_sum \<noteq> example_LinOp" by blast
  note u = combinators_return_new_instances[OF wf_example_env l(2) l(2), where n = 1]
  from u have p3: "st_op_pow example_env 1 1 example_store = (example_store, Inr 1)"
    by blast
  from u have "cls (example_store ! 1) \<noteq> ProjOp \<and> cls (example_store ! 1) \<noteq> OrthProjOp
                 \<and> (1::int) \<le> 1 \<longrightarrow>
      st_op_pow example_env 1 (1 + 1) example_store
          = st_then (st_op_pow example_env 1 1 example_store) (st_op_mul example_env 1)
      \<and> creates example_store (st_op_pow example_env 1 (1 + 1) example_store)
           (op_pow example_env (example_store ! 1) (1 + 1))"
    by blast
  with c have p4: "st_op_pow example_env 1 (1 + 1) example_store
          = st_then (st_op_pow example_env 1 1 example_store) (st_op_mul example_env 1)
      \<and> creates example_store (st_op_pow example_env 1 (1 + 1) example_store)
           (op_pow example_env (example_store ! 1) (1 + 1))"
    by blast
  from wf_example_env l s p1 p2 c p3 p4 show ?thesis by blast
qed

text \<open>
  C9 as stated fails at \<open>n = 1\<close>: the loop of \<^verbatim>\<open>__pow__\<close> does not run and the operand
  itself is returned, at its own address.
\<close>

theorem pow_one_counterexample:
  "op_pow example_env example_LinOp 1 = Inr example_LinOp
   \<and> st_op_pow example_env 1 1 example_store = (example_store, Inr 1)"
  by (simp add: op_pow_def Property_pow_def example_LinOp_def st_op_pow_def st_Property_pow_def
      example_store_def)

end
